theory Spec2Isabelle
  imports Complex_Main
begin

section \<open>JavaScript values used by the forecasting code\<close>

text \<open>
  A JavaScript \<open>number\<close> that holds a series value or a network output is modelled as a
  \<^typ>\<open>real\<close> (the rounding of IEEE doubles and of the Float32 network outputs is abstracted
  away). Where the code can hold the special values \<open>NaN\<close> or \<open>Infinity\<close> (the result of
  \<open>computeMape\<close>, the running \<open>bestMape\<close>) the type \<open>number\<close> below is used.
\<close>

datatype number = Num real | Infinity | NaN

text \<open>The relational operator \<open>a < b\<close> of JavaScript: false as soon as one side is \<open>NaN\<close>.\<close>

fun js_less :: "number \<Rightarrow> number \<Rightarrow> bool" where
  "js_less (Num a) (Num b) = (a < b)"
| "js_less (Num a) Infinity = True"
| "js_less _ _ = False"

text \<open>
  \<open>Array.prototype.slice(start, end)\<close>: a negative index counts from the end, both
  indices are clamped to the array.
\<close>

definition js_index :: "nat \<Rightarrow> int \<Rightarrow> nat" where
  "js_index n k = (if k < 0 then nat (max (int n + k) 0) else nat (min k (int n)))"

definition slice :: "'a list \<Rightarrow> int \<Rightarrow> int \<Rightarrow> 'a list" where
  "slice xs start fin =
     (let k = js_index (length xs) start; e = js_index (length xs) fin
      in take (e - k) (drop k xs))"

text \<open>\<open>slice(start)\<close> with the end omitted runs to the end of the array.\<close>

definition slice_from :: "'a list \<Rightarrow> int \<Rightarrow> 'a list" where
  "slice_from xs start = drop (js_index (length xs) start) xs"

section \<open>SequenceBuilder: \<open>createSequences\<close>\<close>

text \<open>
  \<^verbatim>\<open>for (let i = 0; i < values.length - windowSize; i++) {
    X.push(values.slice(i, i + windowSize)); Y.push(values[i + windowSize]); }\<close>
  The loop bound is a JavaScript subtraction, so it can be negative; the loop then does
  not run. The read \<open>values[i + windowSize]\<close> is always in range inside the loop.
  Both copies of the function (App.tsx and models/timeSeriesModel.ts) have this body.
\<close>

definition createSequences_step ::
  "real list \<Rightarrow> nat \<Rightarrow> real list list \<times> real list \<Rightarrow> nat \<Rightarrow> real list list \<times> real list" where
  "createSequences_step values windowSize XY i =
     (fst XY @ [slice values (int i) (int i + int windowSize)],
      snd XY @ [values ! (i + windowSize)])"

definition createSequences :: "real list \<Rightarrow> nat \<Rightarrow> real list list \<times> real list" where
  "createSequences values windowSize =
     foldl (createSequences_step values windowSize) ([], [])
       [0 ..< nat (int (length values) - int windowSize)]"

section \<open>ErrorMetric: \<open>computeMape\<close>\<close>

text \<open>
  App.tsx: the loop over the indices keeps a running sum and a count of the indices whose
  actual value is not zero.
\<close>

function mapeLoop :: "real list \<Rightarrow> real list \<Rightarrow> nat \<Rightarrow> real \<times> nat \<Rightarrow> real \<times> nat" where
  "mapeLoop actual predicted i sc =
     (if i < length actual then
        (if actual ! i \<noteq> 0
         then mapeLoop actual predicted (i + 1)
                (fst sc + \<bar>(actual ! i - predicted ! i) / actual ! i\<bar>, snd sc + 1)
         else mapeLoop actual predicted (i + 1) sc)
      else sc)"
  by pat_completeness auto
termination
  by (relation "measure (\<lambda>(actual, predicted, i, sc). length actual - i)") auto

definition computeMape :: "real list \<Rightarrow> real list \<Rightarrow> number" where
  "computeMape actual predicted =
     (if length actual \<noteq> length predicted \<or> length actual = 0 then NaN
      else (let sc = mapeLoop actual predicted 0 (0, 0)
            in if snd sc = 0 then NaN else Num ((fst sc / real (snd sc)) * 100)))"

text \<open>
  models/timeSeriesModel.ts: the private \<open>computeMape\<close> of that file skips the zero
  actuals with \<open>continue\<close> but keeps no count: it divides by \<open>actual.length\<close>.
\<close>

function tsm_mapeLoop :: "real list \<Rightarrow> real list \<Rightarrow> nat \<Rightarrow> real \<Rightarrow> real" where
  "tsm_mapeLoop actual predicted i sumPercentErrors =
     (if i < length actual then
        (if actual ! i = 0
         then tsm_mapeLoop actual predicted (i + 1) sumPercentErrors
         else tsm_mapeLoop actual predicted (i + 1)
                (sumPercentErrors + \<bar>(actual ! i - predicted ! i) / actual ! i\<bar>))
      else sumPercentErrors)"
  by pat_completeness auto
termination
  by (relation "measure (\<lambda>(actual, predicted, i, s). length actual - i)") auto

definition tsm_computeMape :: "real list \<Rightarrow> real list \<Rightarrow> number" where
  "tsm_computeMape actual predicted =
     (if length actual = 0 \<or> length actual \<noteq> length predicted then NaN
      else Num ((tsm_mapeLoop actual predicted 0 0 / real (length actual)) * 100))"

text \<open>The indices from \<open>i\<close> on whose actual value is not zero.\<close>

definition validFrom :: "real list \<Rightarrow> nat \<Rightarrow> nat set" where
  "validFrom actual i = {j. i \<le> j \<and> j < length actual \<and> actual ! j \<noteq> 0}"

section \<open>DateUtility: the JavaScript \<open>Date\<close> object\<close>

text \<open>
  A \<open>Date\<close> holds a time value: the milliseconds since the epoch in UTC, or \<open>NaN\<close> (an
  "Invalid Date"), here \<open>None\<close>. The day arithmetic below follows the abstract operations
  of ECMAScript (\<open>Day\<close>, \<open>DayFromYear\<close>, \<open>MakeDay\<close>, \<open>MakeDate\<close>, \<open>TimeClip\<close>). The local time
  zone is a fixed offset \<open>tz\<close> in milliseconds (no daylight saving). The components given
  to the constructor and read by the getters are integers, or \<open>NaN\<close> (\<open>None\<close>).
\<close>

type_synonym Date = "int option"

definition msPerDay :: int where
  "msPerDay = 86400000"

definition Day :: "int \<Rightarrow> int" where
  "Day t = t div msPerDay"

definition TimeWithinDay :: "int \<Rightarrow> int" where
  "TimeWithinDay t = t mod msPerDay"

definition DayFromYear :: "int \<Rightarrow> int" where
  "DayFromYear y =
     365 * (y - 1970) + (y - 1969) div 4 - (y - 1901) div 100 + (y - 1601) div 400"

definition InLeapYear :: "int \<Rightarrow> int" where
  "InLeapYear y =
     (if y mod 4 \<noteq> 0 then 0 else if y mod 100 \<noteq> 0 then 1
      else if y mod 400 \<noteq> 0 then 0 else 1)"

text \<open>
  \<open>YearFromTime\<close>: the year \<open>y\<close> with \<open>DayFromYear y \<le> Day t < DayFromYear (y + 1)\<close>,
  computed from the mean year length and corrected by at most one year.
\<close>

definition YearFromDay :: "int \<Rightarrow> int" where
  "YearFromDay d =
     (let y = 1970 + (d * 400) div 146097
      in if d < DayFromYear y then y - 1
         else if DayFromYear (y + 1) \<le> d then y + 1
         else y)"

definition YearFromTime :: "int \<Rightarrow> int" where
  "YearFromTime t = YearFromDay (Day t)"

definition DayWithinYear :: "int \<Rightarrow> int" where
  "DayWithinYear t = Day t - DayFromYear (YearFromTime t)"

text \<open>The first day of each month within its year; \<open>l\<close> is 1 in a leap year.\<close>

definition monthStart :: "int \<Rightarrow> int \<Rightarrow> int" where
  "monthStart l m =
     (if m = 0 then 0 else if m = 1 then 31 else if m = 2 then 59 + l
      else if m = 3 then 90 + l else if m = 4 then 120 + l else if m = 5 then 151 + l
      else if m = 6 then 181 + l else if m = 7 then 212 + l else if m = 8 then 243 + l
      else if m = 9 then 273 + l else if m = 10 then 304 + l else 334 + l)"

definition MonthFromTime :: "int \<Rightarrow> int" where
  "MonthFromTime t =
     (let d = DayWithinYear t; l = InLeapYear (YearFromTime t)
      in if d < 31 then 0 else if d < 59 + l then 1 else if d < 90 + l then 2
         else if d < 120 + l then 3 else if d < 151 + l then 4 else if d < 181 + l then 5
         else if d < 212 + l then 6 else if d < 243 + l then 7 else if d < 273 + l then 8
         else if d < 304 + l then 9 else if d < 334 + l then 10 else 11)"

definition DateFromTime :: "int \<Rightarrow> int" where
  "DateFromTime t =
     DayWithinYear t - monthStart (InLeapYear (YearFromTime t)) (MonthFromTime t) + 1"

text \<open>
  \<open>MakeDay(year, month, date)\<close>: the month is carried into the year (\<open>month\<close> may be any
  integer), the date is added as a day offset (\<open>date\<close> may be any integer). Nothing is
  range-checked.
\<close>

definition MakeDay :: "int \<Rightarrow> int \<Rightarrow> int \<Rightarrow> int" where
  "MakeDay year month dt =
     (let ym = year + month div 12; mn = month mod 12
      in DayFromYear ym + monthStart (InLeapYear ym) mn + dt - 1)"

definition MakeDate :: "int \<Rightarrow> int \<Rightarrow> int" where
  "MakeDate day time = day * msPerDay + time"

definition TimeClip :: "int \<Rightarrow> Date" where
  "TimeClip t = (if \<bar>t\<bar> > 8640000000000000 then None else Some t)"

definition LocalTime :: "int \<Rightarrow> int \<Rightarrow> int" where
  "LocalTime tz t = t + tz"

definition UTC :: "int \<Rightarrow> int \<Rightarrow> int" where
  "UTC tz t = t - tz"

text \<open>
  \<open>new Date(year, monthIndex, day)\<close>: a \<open>NaN\<close> argument gives an Invalid Date; a year from 0
  to 99 means 1900 + year; the date is built in local time.
\<close>

definition newDate :: "int \<Rightarrow> int option \<Rightarrow> int option \<Rightarrow> int option \<Rightarrow> Date" where
  "newDate tz year monthIndex day =
     (case year of None \<Rightarrow> None | Some y \<Rightarrow>
      (case monthIndex of None \<Rightarrow> None | Some m \<Rightarrow>
       (case day of None \<Rightarrow> None | Some dt \<Rightarrow>
          (let yr = (if 0 \<le> y \<and> y \<le> 99 then 1900 + y else y)
           in TimeClip (UTC tz (MakeDate (MakeDay yr m dt) 0))))))"

definition getFullYear :: "int \<Rightarrow> Date \<Rightarrow> int option" where
  "getFullYear tz d = map_option (\<lambda>t. YearFromTime (LocalTime tz t)) d"

definition getMonth :: "int \<Rightarrow> Date \<Rightarrow> int option" where
  "getMonth tz d = map_option (\<lambda>t. MonthFromTime (LocalTime tz t)) d"

definition getDate :: "int \<Rightarrow> Date \<Rightarrow> int option" where
  "getDate tz d = map_option (\<lambda>t. DateFromTime (LocalTime tz t)) d"

text \<open>\<open>d.setDate(dt)\<close>: the day of the month is replaced in local time, again unchecked.\<close>

definition setDate :: "int \<Rightarrow> Date \<Rightarrow> int option \<Rightarrow> Date" where
  "setDate tz d dt =
     (case d of None \<Rightarrow> None | Some u \<Rightarrow>
      (case dt of None \<Rightarrow> None | Some n \<Rightarrow>
         (let t = LocalTime tz u
          in TimeClip (UTC tz (MakeDate (MakeDay (YearFromTime t) (MonthFromTime t) n)
                                 (TimeWithinDay t))))))"

subsection \<open>Numbers and strings\<close>

text \<open>Decimal digits of a natural number, and \<open>String(n)\<close> of an integer or \<open>NaN\<close>.\<close>

definition digitChar :: "nat \<Rightarrow> char" where
  "digitChar n = char_of (48 + n)"

fun showNat :: "nat \<Rightarrow> string" where
  "showNat n = (if n < 10 then [digitChar n] else showNat (n div 10) @ [digitChar (n mod 10)])"

definition showInt :: "int \<Rightarrow> string" where
  "showInt i = (if i < 0 then CHR ''-'' # showNat (nat (- i)) else showNat (nat i))"

definition js_String :: "int option \<Rightarrow> string" where
  "js_String n = (case n of None \<Rightarrow> ''NaN'' | Some i \<Rightarrow> showInt i)"

definition padStart :: "string \<Rightarrow> nat \<Rightarrow> char \<Rightarrow> string" where
  "padStart s n c = replicate (n - length s) c @ s"

text \<open>
  The digits of the ISO date parser further down.
\<close>

definition isDigit :: "char \<Rightarrow> bool" where
  "isDigit c = (48 \<le> (of_char c :: nat) \<and> (of_char c :: nat) \<le> 57)"

definition digitsValue :: "string \<Rightarrow> nat" where
  "digitsValue ds = foldl (\<lambda>a c. 10 * a + ((of_char c :: nat) - 48)) 0 ds"

text \<open>
  The raw date string comes from the uploaded file and can hold any character, so it is
  modelled as JavaScript has it: a sequence of UTF-16 code units, each a number. \<open>js\<close>
  gives the code units of an ASCII literal.
\<close>

type_synonym js_string = "nat list"

definition js :: "string \<Rightarrow> js_string" where
  "js s = map of_char s"

text \<open>
  The white space that \<open>parseInt\<close> skips (\<open>WhiteSpace\<close> and \<open>LineTerminator\<close> of ECMAScript):
  U+0009 to U+000D, U+0020, U+00A0, U+1680, U+2000 to U+200A, U+2028, U+2029, U+202F,
  U+205F, U+3000 and U+FEFF.
\<close>

definition isWhiteSpace :: "nat \<Rightarrow> bool" where
  "isWhiteSpace c =
     (c \<in> set [9, 10, 11, 12, 13, 32, 160, 5760, 8192, 8193, 8194, 8195, 8196, 8197, 8198,
                8199, 8200, 8201, 8202, 8232, 8233, 8239, 8287, 12288, 65279])"

definition isDecimalDigit :: "nat \<Rightarrow> bool" where
  "isDecimalDigit c = (48 \<le> c \<and> c \<le> 57)"

definition decimalValue :: "js_string \<Rightarrow> nat" where
  "decimalValue ds = foldl (\<lambda>a c. 10 * a + (c - 48)) 0 ds"

text \<open>
  \<open>parseInt(s, 10)\<close>: leading white space is skipped, a sign (\<open>-\<close> is 45, \<open>+\<close> is 43) is
  read, then the longest run of the digits \<open>0\<close> to \<open>9\<close>; \<open>NaN\<close> when there is no digit. What
  follows the digits is ignored.
\<close>

definition parseInt10 :: "js_string \<Rightarrow> int option" where
  "parseInt10 s =
     (let s1 = dropWhile isWhiteSpace s;
          neg = (s1 \<noteq> [] \<and> hd s1 = 45);
          s2 = (if s1 \<noteq> [] \<and> (hd s1 = 45 \<or> hd s1 = 43) then tl s1 else s1);
          ds = takeWhile isDecimalDigit s2
      in if ds = [] then None
         else Some (if neg then - int (decimalValue ds) else int (decimalValue ds)))"

text \<open>
  \<open>dateStr.split(/[-/]/)\<close>: the string is cut at every \<open>-\<close> (45) and every \<open>/\<close> (47).
\<close>

fun splitDate :: "js_string \<Rightarrow> js_string list" where
  "splitDate [] = [[]]"
| "splitDate (c # cs) =
     (if c = 45 \<or> c = 47 then [] # splitDate cs
      else (case splitDate cs of [] \<Rightarrow> [[c]] | p # ps \<Rightarrow> (c # p) # ps))"

subsection \<open>\<open>toISODate\<close>, \<open>parseDateFromFormat\<close>, \<open>generateFutureDates\<close>\<close>

definition toISODate :: "int \<Rightarrow> Date \<Rightarrow> string" where
  "toISODate tz d =
     (let y = getFullYear tz d;
          m = padStart (js_String (map_option (\<lambda>k. k + 1) (getMonth tz d))) 2 CHR ''0'';
          day = padStart (js_String (getDate tz d)) 2 CHR ''0''
      in js_String y @ ''-'' @ m @ ''-'' @ day)"

definition parseDateFromFormat :: "int \<Rightarrow> js_string \<Rightarrow> js_string \<Rightarrow> Date" where
  "parseDateFromFormat tz dateStr dateFormat =
     (let parts = splitDate dateStr
      in if length parts < 3 then None
         else if dateFormat = js ''Y/M/D'' then
           (let year = parseInt10 (parts ! 0); month = parseInt10 (parts ! 1);
                day = parseInt10 (parts ! 2)
            in newDate tz year (map_option (\<lambda>m. m - 1) month) day)
         else if dateFormat = js ''D/M/Y'' then
           (let day = parseInt10 (parts ! 0); month = parseInt10 (parts ! 1);
                year = parseInt10 (parts ! 2)
            in newDate tz year (map_option (\<lambda>m. m - 1) month) day)
         else if dateFormat = js ''M/D/Y'' then
           (let month = parseInt10 (parts ! 0); day = parseInt10 (parts ! 1);
                year = parseInt10 (parts ! 2)
            in newDate tz year (map_option (\<lambda>m. m - 1) month) day)
         else None)"

text \<open>
  \<open>new Date(lastDateStr)\<close> parses a string. Beyond the ISO format the parser is
  implementation-defined, so \<open>generateFutureDates\<close> takes it as the parameter \<open>parse\<close>.
  The loops run for \<open>i = 1, ..., periods\<close>.
\<close>

definition generateFutureDates ::
  "(string \<Rightarrow> Date) \<Rightarrow> int \<Rightarrow> string \<Rightarrow> int \<Rightarrow> string list" where
  "generateFutureDates parse tz lastDateStr periods =
     (let lastDate = parse lastDateStr
      in if lastDate = None
         then foldl (\<lambda>dates i. dates @ [''Futuro +'' @ showInt i]) [] [1 .. periods]
         else foldl (\<lambda>dates i.
                dates @ [toISODate tz
                  (setDate tz lastDate (map_option (\<lambda>k. k + i) (getDate tz lastDate)))])
              [] [1 .. periods])"

text \<open>
  An instance of the parser: the date-only ISO form \<open>YYYY-MM-DD\<close>, read as midnight UTC;
  every other string is taken as not understood.
\<close>

definition parseISODate :: "string \<Rightarrow> Date" where
  "parseISODate s =
     (if length s = 10 \<and> s ! 4 = CHR ''-'' \<and> s ! 7 = CHR ''-'' \<and>
         list_all isDigit (take 4 s @ take 2 (drop 5 s) @ take 2 (drop 8 s))
      then (let y = int (digitsValue (take 4 s)); m = int (digitsValue (take 2 (drop 5 s)));
                d = int (digitsValue (take 2 (drop 8 s)))
            in if 1 \<le> m \<and> m \<le> 12 \<and> 1 \<le> d \<and>
                  d \<le> monthStart (InLeapYear y) m - monthStart (InLeapYear y) (m - 1)
                      + (if m = 12 then 31 else 0)
               then TimeClip (MakeDate (MakeDay y (m - 1) d) 0) else None)
      else None)"

section \<open>ForecastModel: the trained network\<close>

text \<open>
  A point of the series. The field \<open>val\<close> is the field \<open>value\<close> of the source.
\<close>

record TimeSeriesData =
  date :: string
  val :: real

text \<open>
  A \<open>tf.LayersModel\<close> after \<open>fit\<close>: \<open>model_id\<close> identifies the allocated model (it is what
  \<open>dispose\<close> releases), \<open>inputWindow\<close> and \<open>lstmUnits\<close> are its shape, \<open>forward\<close> is the
  value that \<open>model.predict\<close> followed by \<open>dataSync()[0]\<close> returns for a window of the
  right length. Training is stochastic, so the trainer is a parameter \<open>fit\<close>: for a window
  size, a width, the windows, the labels and the number of epochs it gives the trained
  network's function.
\<close>

record LayersModel =
  model_id :: nat
  inputWindow :: nat
  lstmUnits :: nat
  forward :: "real list \<Rightarrow> real"

type_synonym trainer = "nat \<Rightarrow> nat \<Rightarrow> real list list \<Rightarrow> real list \<Rightarrow> nat \<Rightarrow> real list \<Rightarrow> real"

text \<open>
  The evaluation loop, written twice in App.tsx (in \<open>trainAndEvaluate\<close> and after the sweep
  in \<open>handleTrain\<close>):
  \<^verbatim>\<open>for (let i = windowSize; i < testValues.length; i++) {
    const window = testValues.slice(i - windowSize, i); ... predicted.push(val); }\<close>
\<close>

definition predictWindows :: "(real list \<Rightarrow> real) \<Rightarrow> real list \<Rightarrow> nat \<Rightarrow> real list" where
  "predictWindows f testValues windowSize =
     foldl (\<lambda>predicted i.
              predicted @ [f (slice testValues (int i - int windowSize) (int i))])
       [] [windowSize ..< length testValues]"

text \<open>
  \<open>trainAndEvaluate\<close>: \<open>fresh\<close> is the identity of the model that \<open>tf.sequential()\<close>
  allocates.
\<close>

definition trainAndEvaluate ::
  "trainer \<Rightarrow> nat \<Rightarrow> TimeSeriesData list \<Rightarrow> TimeSeriesData list \<Rightarrow> nat \<Rightarrow> nat \<Rightarrow> nat
     \<Rightarrow> LayersModel \<times> number" where
  "trainAndEvaluate fit fresh trainData testData windowSize units epochs =
     (let trainValues = map val trainData;
          XY = createSequences trainValues windowSize;
          model = \<lparr>model_id = fresh, inputWindow = windowSize, lstmUnits = units,
                   forward = fit windowSize units (fst XY) (snd XY) epochs\<rparr>;
          testValues = map val testData;
          predicted = predictWindows (forward model) testValues windowSize;
          actual = slice_from testValues (int windowSize);
          mape = computeMape actual predicted
      in (model, mape))"

section \<open>ModelSearch: the sweep of \<open>handleTrain\<close>\<close>

text \<open>
  The local variables of the sweep, the two pieces of UI state it writes (\<open>setProgress\<close>,
  \<open>setTimeLeft\<close>), and \<open>live\<close>: the identities of the models created in this run and not
  yet disposed.
\<close>

record sweep =
  bestMape :: number
  bestModel :: "LayersModel option"
  bestWindowSize :: nat
  combosProcessed :: nat
  live :: "nat list"
  ui_progress :: int
  ui_timeLeft :: "real option"

definition sweep_init :: sweep where
  "sweep_init =
     \<lparr>bestMape = Infinity, bestModel = None, bestWindowSize = 3, combosProcessed = 0,
      live = [], ui_progress = 0, ui_timeLeft = None\<rparr>"

definition dispose :: "LayersModel \<Rightarrow> sweep \<Rightarrow> sweep" where
  "dispose m s = s\<lparr>live := removeAll (model_id m) (live s)\<rparr>"

text \<open>The state when \<open>trainAndEvaluate\<close> has returned: the candidate exists.\<close>

definition created :: "sweep \<Rightarrow> LayersModel \<Rightarrow> sweep" where
  "created s model = s\<lparr>live := model_id model # live s\<rparr>"

text \<open>
  \<^verbatim>\<open>if (mape < bestMape) { if (bestModel) bestModel.dispose();
    bestMape = mape; bestModel = model; bestWindowSize = w; } else { model.dispose(); }\<close>
\<close>

definition select :: "sweep \<Rightarrow> nat \<Rightarrow> LayersModel \<Rightarrow> number \<Rightarrow> sweep" where
  "select s w model mape =
     (if js_less mape (bestMape s)
      then (case bestModel s of None \<Rightarrow> s | Some b \<Rightarrow> dispose b s)
             \<lparr>bestMape := mape, bestModel := Some model, bestWindowSize := w\<rparr>
      else dispose model s)"

text \<open>\<open>Math.round\<close> rounds to the nearest integer, a half upwards.\<close>

definition js_round :: "real \<Rightarrow> int" where
  "js_round x = \<lfloor>x + 1 / 2\<rfloor>"

text \<open>
  The progress report that ends an iteration. \<open>clock k\<close> is the reading of
  \<open>performance.now()\<close> after \<open>k\<close> configurations (\<open>clock 0\<close> is \<open>startTime\<close>).
\<close>

definition report :: "(nat \<Rightarrow> real) \<Rightarrow> nat \<Rightarrow> sweep \<Rightarrow> sweep" where
  "report clock totalCombos s =
     (let n = combosProcessed s + 1;
          fraction = real n / real totalCombos;
          elapsed = clock n - clock 0;
          avgPerCombo = elapsed / real n;
          combosLeft = real totalCombos - real n;
          estRemaining = avgPerCombo * combosLeft
      in s\<lparr>combosProcessed := n, ui_progress := js_round (fraction * 100),
            ui_timeLeft := Some (estRemaining / 1000)\<rparr>)"

text \<open>One iteration of the double loop, for the configuration \<open>(w, u)\<close>.\<close>

definition sweep_step ::
  "trainer \<Rightarrow> (nat \<Rightarrow> real) \<Rightarrow> TimeSeriesData list \<Rightarrow> TimeSeriesData list \<Rightarrow> nat
     \<Rightarrow> sweep \<Rightarrow> nat \<times> nat \<Rightarrow> sweep" where
  "sweep_step fit clock trainData testData totalCombos s wu =
     (let r = trainAndEvaluate fit (combosProcessed s) trainData testData (fst wu) (snd wu) 1000
      in report clock totalCombos (select (created s (fst r)) (fst wu) (fst r) (snd r)))"

definition sweepFrom ::
  "trainer \<Rightarrow> (nat \<Rightarrow> real) \<Rightarrow> TimeSeriesData list \<Rightarrow> TimeSeriesData list \<Rightarrow> nat
     \<Rightarrow> sweep \<Rightarrow> (nat \<times> nat) list \<Rightarrow> sweep" where
  "sweepFrom fit clock trainData testData totalCombos s cs =
     foldl (sweep_step fit clock trainData testData totalCombos) s cs"

definition runSweep ::
  "trainer \<Rightarrow> (nat \<Rightarrow> real) \<Rightarrow> TimeSeriesData list \<Rightarrow> TimeSeriesData list
     \<Rightarrow> (nat \<times> nat) list \<Rightarrow> sweep" where
  "runSweep fit clock trainData testData cs =
     sweepFrom fit clock trainData testData (length cs) sweep_init cs"

text \<open>
  The configurations in the order of the nested loops
  \<^verbatim>\<open>for (const w of windowSizes) for (const u of lstmUnitsArray)\<close>.
\<close>

definition windowSizes :: "nat list" where
  "windowSizes = [3, 5]"

definition lstmUnitsArray :: "nat list" where
  "lstmUnitsArray = [32, 64]"

definition combos :: "(nat \<times> nat) list" where
  "combos = concat (map (\<lambda>w. map (\<lambda>u. (w, u)) lstmUnitsArray) windowSizes)"

text \<open>
  The state of the sweep when \<open>n\<close> configurations are done, and what the configuration of
  index \<open>i\<close> evaluates to (its model has the identity \<open>i\<close>).
\<close>

definition sweepAt ::
  "trainer \<Rightarrow> (nat \<Rightarrow> real) \<Rightarrow> TimeSeriesData list \<Rightarrow> TimeSeriesData list
     \<Rightarrow> (nat \<times> nat) list \<Rightarrow> nat \<Rightarrow> sweep" where
  "sweepAt fit clock trainData testData cs n =
     sweepFrom fit clock trainData testData (length cs) sweep_init (take n cs)"

definition evalCombo ::
  "trainer \<Rightarrow> TimeSeriesData list \<Rightarrow> TimeSeriesData list \<Rightarrow> (nat \<times> nat) list \<Rightarrow> nat
     \<Rightarrow> LayersModel \<times> number" where
  "evalCombo fit trainData testData cs i =
     trainAndEvaluate fit i trainData testData (fst (cs ! i)) (snd (cs ! i)) 1000"

definition mapeOf ::
  "trainer \<Rightarrow> TimeSeriesData list \<Rightarrow> TimeSeriesData list \<Rightarrow> (nat \<times> nat) list \<Rightarrow> nat \<Rightarrow> number" where
  "mapeOf fit trainData testData cs i = snd (evalCombo fit trainData testData cs i)"

text \<open>
  The invariant of the sweep after \<open>n\<close> configurations: either no model was adopted, the
  best error is still \<open>Infinity\<close> and nothing is live; or the best model is that of some
  configuration \<open>k < n\<close>, it alone is live, its error is strictly below every numeric error
  seen before it and no later error is strictly below it.
\<close>

definition sweepInv ::
  "trainer \<Rightarrow> TimeSeriesData list \<Rightarrow> TimeSeriesData list \<Rightarrow> (nat \<times> nat) list \<Rightarrow> nat
     \<Rightarrow> sweep \<Rightarrow> bool" where
  "sweepInv fit trainData testData cs n s \<longleftrightarrow>
     combosProcessed s = n \<and>
     (case bestModel s of
        None \<Rightarrow>
          bestMape s = Infinity \<and> live s = [] \<and> bestWindowSize s = 3 \<and>
          (\<forall>i<n. \<not> js_less (mapeOf fit trainData testData cs i) Infinity)
      | Some b \<Rightarrow>
          live s = [model_id b] \<and>
          (\<exists>k<n. b = fst (evalCombo fit trainData testData cs k) \<and>
                  bestMape s = mapeOf fit trainData testData cs k \<and>
                  bestWindowSize s = fst (cs ! k) \<and>
                  js_less (mapeOf fit trainData testData cs k) Infinity \<and>
                  (\<forall>j<k. \<forall>e. mapeOf fit trainData testData cs j = Num e \<longrightarrow>
                         js_less (mapeOf fit trainData testData cs k) (Num e)) \<and>
                  (\<forall>j. k < j \<and> j < n \<longrightarrow>
                         \<not> js_less (mapeOf fit trainData testData cs j)
                                    (mapeOf fit trainData testData cs k))))"

section \<open>ForecastPipeline: \<open>handleTrain\<close>\<close>

text \<open>
  The future loop, in \<open>handleTrain\<close> and in \<open>TimeSeriesModel.predict\<close>:
  \<^verbatim>\<open>let currentWindow = fullValues.slice(-bestWindowSize);
  for (let i = 0; i < futurePeriods; i++) { ... futureForecasts.push(val);
    currentWindow = [...currentWindow.slice(1), val]; }\<close>
  The state of the loop is the pair of \<open>currentWindow\<close> and the forecasts so far.
\<close>

definition futureStep :: "(real list \<Rightarrow> real) \<Rightarrow> real list \<times> real list \<Rightarrow> real list \<times> real list" where
  "futureStep f st = (let v = f (fst st) in (slice_from (fst st) 1 @ [v], snd st @ [v]))"

definition futureForecast ::
  "(real list \<Rightarrow> real) \<Rightarrow> real list \<Rightarrow> nat \<Rightarrow> int \<Rightarrow> real list \<times> real list" where
  "futureForecast f fullValues windowSize periods =
     foldl (\<lambda>st i. futureStep f st) (slice_from fullValues (- int windowSize), [])
       [0 ..< nat periods]"

text \<open>The React state that \<open>handleTrain\<close> reads and writes.\<close>

record AppState =
  data :: "TimeSeriesData list"
  futurePeriods :: int
  error :: "string option"
  isTraining :: bool
  progress :: int
  timeLeft :: "real option"
  testPredictions :: "real list"
  testMape :: "number option"
  futurePredictions :: "real list"
  futureDates :: "string list"

text \<open>The two messages; the accented letter of the second is written as its UTF-8 bytes.\<close>

definition msgTooShort :: string where
  "msgTooShort = ''Se necesitan al menos 20 datos para entrenar.''"

definition msgNoModel :: string where
  "msgNoModel = ''No se pudo entrenar ning'' @ [CHR 0xC3, CHR 0xBA] @ ''n modelo.''"

text \<open>
  The chronological split and the sweep that \<open>handleTrain\<close> runs on it.
  \<open>Math.floor(data.length * 0.8)\<close> is the floor of four fifths of the length.
\<close>

definition splitIndex :: "AppState \<Rightarrow> int" where
  "splitIndex s = \<lfloor>real (length (data s)) * (8 / 10)\<rfloor>"

definition trainData :: "AppState \<Rightarrow> TimeSeriesData list" where
  "trainData s = slice (data s) 0 (splitIndex s)"

definition testData :: "AppState \<Rightarrow> TimeSeriesData list" where
  "testData s = slice_from (data s) (splitIndex s)"

definition search :: "trainer \<Rightarrow> (nat \<Rightarrow> real) \<Rightarrow> AppState \<Rightarrow> sweep" where
  "search fit clock s = runSweep fit clock (trainData s) (testData s) combos"

definition handleTrain ::
  "trainer \<Rightarrow> (nat \<Rightarrow> real) \<Rightarrow> (string \<Rightarrow> Date) \<Rightarrow> int \<Rightarrow> AppState \<Rightarrow> AppState" where
  "handleTrain fit clock parse tz s =
     (if length (data s) < 20 then s\<lparr>error := Some msgTooShort\<rparr>
      else
        (let s1 = s\<lparr>error := None, isTraining := True, progress := 0, timeLeft := None,
                    testPredictions := [], testMape := None, futurePredictions := [],
                    futureDates := []\<rparr>;
             sw = search fit clock s;
             s2 = s1\<lparr>progress := ui_progress sw, timeLeft := ui_timeLeft sw\<rparr>
         in case bestModel sw of
              None \<Rightarrow> s2\<lparr>error := Some msgNoModel, isTraining := False\<rparr>
            | Some best \<Rightarrow>
                (let testValues = map val (testData s);
                     predictionsOnTest =
                       predictWindows (forward best) testValues (bestWindowSize sw);
                     actualTest = slice_from testValues (int (bestWindowSize sw));
                     finalMape = computeMape actualTest predictionsOnTest;
                     fullValues = map val (data s);
                     futureForecasts =
                       snd (futureForecast (forward best) fullValues (bestWindowSize sw)
                              (futurePeriods s));
                     lastDate = date (data s ! (length (data s) - 1));
                     futureDts = generateFutureDates parse tz lastDate (futurePeriods s)
                 in s2\<lparr>testMape := Some finalMape, testPredictions := predictionsOnTest,
                        futurePredictions := futureForecasts, futureDates := futureDts,
                        isTraining := False\<rparr>)))"

section \<open>\<open>TimeSeriesModel\<close> (models/timeSeriesModel.ts)\<close>

text \<open>
  The class has one field, \<open>model\<close>, \<open>null\<close> until \<open>train\<close> assigns it. \<open>tf.tensor3d\<close>
  throws when the window does not have the declared shape \<open>[1, 3, 1]\<close>.
\<close>

record TimeSeriesModel =
  model :: "LayersModel option"

datatype tf_error = ShapeMismatch

definition new_TimeSeriesModel :: TimeSeriesModel where
  "new_TimeSeriesModel = \<lparr>model = None\<rparr>"

definition train :: "trainer \<Rightarrow> TimeSeriesModel \<Rightarrow> TimeSeriesData list \<Rightarrow> nat \<Rightarrow> TimeSeriesModel" where
  "train fit this dat epochs =
     (let valuesArray = map val dat;
          windowSize = 3;
          XY = createSequences valuesArray windowSize
      in this\<lparr>model := Some \<lparr>model_id = 0, inputWindow = windowSize, lstmUnits = 64,
                               forward = fit windowSize 64 (fst XY) (snd XY) epochs\<rparr>\<rparr>)"

definition predict :: "TimeSeriesModel \<Rightarrow> TimeSeriesData list \<Rightarrow> int \<Rightarrow> tf_error + real list" where
  "predict this dat periods =
     (case model this of
        None \<Rightarrow> Inr []
      | Some m \<Rightarrow>
          (let windowSize = 3;
               valuesArray = map val dat;
               currentWindow = slice_from valuesArray (- int windowSize)
           in if 0 < periods \<and> (length currentWindow \<noteq> windowSize \<or> inputWindow m \<noteq> windowSize)
              then Inl ShapeMismatch
              else Inr (snd (futureForecast (forward m) valuesArray windowSize periods))))"

section \<open>Example inputs\<close>

text \<open>
  Concrete inputs on which the theorems below are instantiated: a trainer whose networks of
  width 64 repeat the last value of the window and whose other networks answer 0, a clock,
  and three states with earlier results on display: twenty points 1, ..., 20; the same
  series ending in 0 (no configuration then has a defined test error); nineteen points.
\<close>

definition exampleFit :: trainer where
  "exampleFit = (\<lambda>w u X Y epochs window. if u = 64 then last window else 0)"

definition exampleClock :: "nat \<Rightarrow> real" where
  "exampleClock = (\<lambda>k. 1000 * real k)"

definition examplePoints :: "real list \<Rightarrow> TimeSeriesData list" where
  "examplePoints vs = map (\<lambda>v. \<lparr>date = ''2024-01-01'', val = v\<rparr>) vs"

definition exampleState :: "real list \<Rightarrow> AppState" where
  "exampleState vs =
     \<lparr>data = examplePoints vs, futurePeriods = 2, error = None, isTraining = False,
      progress = 100, timeLeft = Some 0, testPredictions = [7], testMape = Some (Num 5),
      futurePredictions = [8, 9], futureDates = [''2024-01-02'', ''2024-01-03'']\<rparr>"

definition twentyPoints :: "real list" where
  "twentyPoints = [1, 2, 3, 4, 5, 6, 7, 8, 9, 10, 11, 12, 13, 14, 15, 16, 17, 18, 19, 20]"

definition endingInZero :: "real list" where
  "endingInZero = [1, 2, 3, 4, 5, 6, 7, 8, 9, 10, 11, 12, 13, 14, 15, 16, 17, 18, 19, 0]"

section \<open>Properties of \<open>createSequences\<close>\<close>

lemma slice_window:
  "i + w \<le> length xs \<Longrightarrow> slice xs (int i) (int i + int w) = take w (drop i xs)"
  by (simp add: slice_def js_index_def Let_def min_def nat_add_distrib)

lemma createSequences_fold:
  "foldl (createSequences_step values w) (X, Y) [0 ..< n] =
     (X @ map (\<lambda>i. slice values (int i) (int i + int w)) [0 ..< n],
      Y @ map (\<lambda>i. values ! (i + w)) [0 ..< n])"
  by (induction n) (simp_all add: createSequences_step_def)

lemma createSequences_eq:
  "createSequences values w =
     (map (\<lambda>i. slice values (int i) (int i + int w)) [0 ..< length values - w],
      map (\<lambda>i. values ! (i + w)) [0 ..< length values - w])"
proof -
  have "nat (int (length values) - int w) = length values - w" by simp
  then show ?thesis
    by (simp add: createSequences_def createSequences_fold)
qed

lemma drop_as_map: "drop w xs = map (\<lambda>i. xs ! (i + w)) [0 ..< length xs - w]"
  by (rule nth_equalityI) (simp_all add: add.commute)


text \<open>
  Claim C3. For a series of length \<open>L\<close> and a window size \<open>W < L\<close> the builder returns
  exactly \<open>L - W\<close> windows; window \<open>i\<close> is \<open>values[i .. i+W)\<close>, of length \<open>W\<close>; the labels
  are \<open>values[W:]\<close>. For \<open>L \<le> W\<close> both results are empty.
\<close>

theorem createSequences_windows:
  "(w < length values \<longrightarrow>
      length (fst (createSequences values w)) = length values - w \<and>
      (\<forall>i < length values - w.
          fst (createSequences values w) ! i = take w (drop i values) \<and>
          length (fst (createSequences values w) ! i) = w) \<and>
      snd (createSequences values w) = drop w values) \<and>
   (length values \<le> w \<longrightarrow> createSequences values w = ([], []))"
  by (simp add: createSequences_eq slice_window drop_as_map [symmetric])

lemma createSequences_five:
  "createSequences [1, 2, 3, 4, 5] 3 = ([[1, 2, 3], [2, 3, 4]], [4, 5])"
  by (simp add: createSequences_def createSequences_step_def slice_def js_index_def upt_rec)

lemma createSequences_short: "createSequences [1, 2] 3 = ([], [])"
  by (simp add: createSequences_def)

theorem createSequences_windows_witness:
  "(3::nat) < length [1, 2, 3, 4, 5 :: real] \<and>
   length (fst (createSequences [1, 2, 3, 4, 5] 3)) = 2 \<and>
   fst (createSequences [1, 2, 3, 4, 5] 3) ! 0 = [1, 2, 3] \<and>
   fst (createSequences [1, 2, 3, 4, 5] 3) ! 1 = [2, 3, 4] \<and>
   snd (createSequences [1, 2, 3, 4, 5] 3) = [4, 5] \<and>
   length [1, 2 :: real] \<le> 3 \<and> createSequences [1, 2] 3 = ([], [])"
  using createSequences_windows [of 3 "[1, 2, 3, 4, 5]"]
        createSequences_windows [of 3 "[1, 2]"]
  by (simp add: createSequences_five createSequences_short)

section \<open>Properties of \<open>computeMape\<close>\<close>

lemma finite_validFrom: "finite (validFrom a i)"
  by (simp add: validFrom_def)

lemma validFrom_step:
  "i < length a \<Longrightarrow>
   validFrom a i =
     (if a ! i \<noteq> 0 then insert i (validFrom a (Suc i)) else validFrom a (Suc i))"
  by (auto simp: validFrom_def le_eq_less_or_eq Suc_le_eq)

lemma validFrom_end: "\<not> i < length a \<Longrightarrow> validFrom a i = {}"
  by (auto simp: validFrom_def)

lemma notin_validFrom: "i \<notin> validFrom a (Suc i)"
  by (simp add: validFrom_def)

lemma mapeLoop_eq:
  "mapeLoop a p i sc =
     (fst sc + (\<Sum>j\<in>validFrom a i. \<bar>a ! j - p ! j\<bar> / \<bar>a ! j\<bar>),
      snd sc + card (validFrom a i))"
proof (induction a p i sc rule: mapeLoop.induct)
  case (1 actual predicted i sc)
  show ?case
  proof (cases "i < length actual")
    case False
    then show ?thesis by (simp add: validFrom_end)
  next
    case inb: True
    show ?thesis
    proof (cases "actual ! i \<noteq> 0")
      case True
      have "mapeLoop actual predicted i sc =
            mapeLoop actual predicted (i + 1)
              (fst sc + \<bar>(actual ! i - predicted ! i) / actual ! i\<bar>, snd sc + 1)"
        using inb True by (subst mapeLoop.simps) simp
      also have "\<dots> =
          (fst sc + (\<Sum>j\<in>validFrom actual i. \<bar>actual ! j - predicted ! j\<bar> / \<bar>actual ! j\<bar>),
           snd sc + card (validFrom actual i))"
        using inb True
        by (simp only: 1(1) [OF inb True])
           (simp add: validFrom_step finite_validFrom notin_validFrom)
      finally show ?thesis .
    next
      case False
      have "mapeLoop actual predicted i sc = mapeLoop actual predicted (i + 1) sc"
        using inb False by (subst mapeLoop.simps) simp
      also have "\<dots> =
          (fst sc + (\<Sum>j\<in>validFrom actual i. \<bar>actual ! j - predicted ! j\<bar> / \<bar>actual ! j\<bar>),
           snd sc + card (validFrom actual i))"
        using inb False
        by (simp only: 1(2) [OF inb False]) (simp add: validFrom_step)
      finally show ?thesis .
    qed
  qed
qed


lemma card_validFrom_0: "card (validFrom a i) = 0 \<longleftrightarrow> validFrom a i = {}"
  by (simp add: finite_validFrom)

text \<open>
  The \<open>computeMape\<close> of App.tsx, the one the pipeline calls, is the mean over the valid
  indices only, and \<open>NaN\<close> when the lengths differ, the input is empty or no index is valid.
\<close>

lemma computeMape_App_spec:
  "computeMape actual predicted =
     (if length actual = length predicted \<and> actual \<noteq> [] \<and> validFrom actual 0 \<noteq> {}
      then Num (100 * (\<Sum>j\<in>validFrom actual 0. \<bar>actual ! j - predicted ! j\<bar> / \<bar>actual ! j\<bar>)
                  / real (card (validFrom actual 0)))
      else NaN)"
  unfolding computeMape_def mapeLoop_eq Let_def
  by (simp add: card_validFrom_0)

text \<open>
  Claim C1. The percentage error is 100 times the mean of \<open>|actual[i]-predicted[i]|/|actual[i]|\<close>
  over the indices with \<open>actual[i] \<noteq> 0\<close> only, so \<open>[0,10]\<close> against \<open>[5,12]\<close> gives 20, and it
  is \<open>NaN\<close> when no index is valid. The \<open>computeMape\<close> of models/timeSeriesModel.ts divides
  by the full length instead: it returns 10 on that input, and 0 (not \<open>NaN\<close>) when every
  actual value is zero, where the \<open>computeMape\<close> of App.tsx returns 20 and \<open>NaN\<close>.
\<close>

theorem tsm_computeMape_counts_skipped:
  "tsm_computeMape [0, 10] [5, 12] = Num 10 \<and> computeMape [0, 10] [5, 12] = Num 20 \<and>
   tsm_computeMape [0] [5] = Num 0 \<and> computeMape [0] [5] = NaN"
  by (simp add: tsm_computeMape_def computeMape_def)

theorem tsm_computeMape_counts_skipped_witness:
  "tsm_computeMape [0, 10] [5, 12] \<noteq> computeMape [0, 10] [5, 12] \<and>
   tsm_computeMape [0] [5] \<noteq> computeMape [0] [5]"
  using tsm_computeMape_counts_skipped by simp

section \<open>Properties of the date functions\<close>

lemma InLeapYear_range: "0 \<le> InLeapYear y \<and> InLeapYear y \<le> 1"
  by (simp add: InLeapYear_def)

lemma monthStart_range: "0 \<le> l \<Longrightarrow> l \<le> 1 \<Longrightarrow> 0 \<le> monthStart l m \<and> monthStart l m \<le> 335"
  by (simp add: monthStart_def)

lemma div_bounds:
  fixes a :: int
  assumes "0 < b"
  shows "b * (a div b) \<le> a \<and> a < b * (a div b) + b"
  using mult_div_mod_eq [of b a] pos_mod_sign [OF assms, of a] pos_mod_bound [OF assms, of a]
  by linarith

text \<open>
  \<open>YearFromDay\<close> is the year of ECMAScript's \<open>YearFromTime\<close>: the one whose first day is
  not after \<open>d\<close> while the first day of the next year is.
\<close>

lemma DayFromYear_linear:
  "DayFromYear y = 365 * y - 719050 + (y - 1969) div 4 - (y - 1901) div 100 + (y - 1601) div 400"
  by (simp add: DayFromYear_def)

lemma YearFromDay_estimate:
  fixes d :: int
  defines "y \<equiv> 1970 + (d * 400) div 146097"
  shows "DayFromYear (y - 1) \<le> d \<and> d < DayFromYear (y + 2)"
proof -
  define q where "q = (d * 400) div 146097"
  have y: "y = 1970 + q" by (simp add: y_def q_def)
  have q: "146097 * q \<le> d * 400 \<and> d * 400 < 146097 * q + 146097"
    unfolding q_def by (rule div_bounds) simp
  define a b c where "a = (q + 0) div 4" and "b = (q + 68) div 100" and "c = (q + 368) div 400"
  have a: "4 * a \<le> q + 0 \<and> q + 0 < 4 * a + 4" unfolding a_def by (rule div_bounds) simp
  have b: "100 * b \<le> q + 68 \<and> q + 68 < 100 * b + 100" unfolding b_def by (rule div_bounds) simp
  have c: "400 * c \<le> q + 368 \<and> q + 368 < 400 * c + 400" unfolding c_def by (rule div_bounds) simp
  have lo: "DayFromYear (y - 1) = 365 * q - 365 + a - b + c"
    by (simp add: DayFromYear_linear y a_def b_def c_def add.commute)
  define a' b' c' where "a' = (q + 3) div 4" and "b' = (q + 71) div 100" and "c' = (q + 371) div 400"
  have a': "4 * a' \<le> q + 3 \<and> q + 3 < 4 * a' + 4" unfolding a'_def by (rule div_bounds) simp
  have b': "100 * b' \<le> q + 71 \<and> q + 71 < 100 * b' + 100" unfolding b'_def by (rule div_bounds) simp
  have c': "400 * c' \<le> q + 371 \<and> q + 371 < 400 * c' + 400" unfolding c'_def by (rule div_bounds) simp
  have hi: "DayFromYear (y + 2) = 365 * q + 730 + a' - b' + c'"
    by (simp add: DayFromYear_linear y a'_def b'_def c'_def add.commute)
  have "365 * q - 365 + a - b + c \<le> d" using q a b c by linarith
  moreover have "d < 365 * q + 730 + a' - b' + c'" using q a' b' c' by linarith
  ultimately show ?thesis by (simp add: lo hi)
qed

lemma YearFromDay_spec:
  "DayFromYear (YearFromDay d) \<le> d \<and> d < DayFromYear (YearFromDay d + 1)"
proof -
  define y where "y = 1970 + (d * 400) div 146097"
  have est: "DayFromYear (y - 1) \<le> d \<and> d < DayFromYear (y + 2)"
    unfolding y_def by (rule YearFromDay_estimate)
  have "YearFromDay d =
          (if d < DayFromYear y then y - 1 else if DayFromYear (y + 1) \<le> d then y + 1 else y)"
    by (simp add: YearFromDay_def y_def Let_def)
  with est show ?thesis by (auto simp: add.commute)
qed

lemma DayFromYear_bound:
  assumes "\<bar>y\<bar> \<le> 13000"
  shows "\<bar>DayFromYear y\<bar> \<le> 6000000"
proof -
  define a where "a = (y - 1969) div 4"
  define b where "b = (y - 1901) div 100"
  define c where "c = (y - 1601) div 400"
  have "4 * a \<le> y - 1969 \<and> y - 1969 < 4 * a + 4"
    unfolding a_def by (rule div_bounds) simp
  moreover have "100 * b \<le> y - 1901 \<and> y - 1901 < 100 * b + 100"
    unfolding b_def by (rule div_bounds) simp
  moreover have "400 * c \<le> y - 1601 \<and> y - 1601 < 400 * c + 400"
    unfolding c_def by (rule div_bounds) simp
  moreover have "- 13000 \<le> y \<and> y \<le> 13000" using assms by linarith
  moreover have "DayFromYear y = 365 * y - 719050 + a - b + c"
    by (simp add: DayFromYear_def a_def b_def c_def)
  ultimately show ?thesis by linarith
qed

lemma MakeDay_bound:
  assumes "\<bar>y\<bar> \<le> 12000" "\<bar>m\<bar> \<le> 10000" "\<bar>d\<bar> \<le> 9999"
  shows "\<bar>MakeDay y m d\<bar> \<le> 7000000"
proof -
  define q where "q = m div 12"
  have "12 * q \<le> m \<and> m < 12 * q + 12"
    unfolding q_def by (rule div_bounds) simp
  then have "\<bar>y + q\<bar> \<le> 13000" using assms by linarith
  then have ym: "\<bar>y + m div 12\<bar> \<le> 13000" by (simp add: q_def)
  have ms: "0 \<le> monthStart (InLeapYear (y + m div 12)) (m mod 12) \<and>
            monthStart (InLeapYear (y + m div 12)) (m mod 12) \<le> 335"
    using InLeapYear_range monthStart_range by blast
  show ?thesis
    unfolding MakeDay_def Let_def
    using DayFromYear_bound [OF ym] ms assms(3) by linarith
qed

lemma newDate_numeric:
  assumes "\<bar>y\<bar> \<le> 9999" "\<bar>m\<bar> \<le> 10000" "\<bar>d\<bar> \<le> 9999" "\<bar>tz\<bar> \<le> msPerDay"
  shows "newDate tz (Some y) (Some m) (Some d) \<noteq> None"
proof -
  define yr where "yr = (if 0 \<le> y \<and> y \<le> 99 then 1900 + y else y)"
  have "\<bar>yr\<bar> \<le> 12000" using assms(1) by (simp add: yr_def)
  from MakeDay_bound [OF this assms(2,3)]
  have "\<bar>MakeDay yr m d\<bar> \<le> 7000000" .
  then have "\<bar>MakeDay yr m d * 86400000 - tz\<bar> \<le> 8640000000000000"
    using assms(4) by (simp add: msPerDay_def)
  then show ?thesis
    by (simp add: newDate_def TimeClip_def UTC_def MakeDate_def msPerDay_def yr_def Let_def)
qed

lemma newDate_NaN:
  "newDate tz None m d = None" "newDate tz y None d = None" "newDate tz y m None = None"
  by (simp_all add: newDate_def split: option.splits)

lemma MakeDay_month_wraps: "MakeDay y (m + 12) d = MakeDay (y + 1) m d"
  by (simp add: MakeDay_def Let_def algebra_simps)

lemma newDate_month_wraps:
  assumes "y < -1 \<or> 99 < y"
  shows "newDate tz (Some y) (Some (m + 12)) (Some d) = newDate tz (Some (y + 1)) (Some m) (Some d)"
proof -
  have "\<not> (0 \<le> y \<and> y \<le> 99)" "\<not> (0 \<le> y + 1 \<and> y + 1 \<le> 99)"
    using assms by auto
  then show ?thesis
    by (simp only: newDate_def option.case Let_def if_False MakeDay_month_wraps)
qed


lemma foldl_push: "foldl (\<lambda>acc i. acc @ [f i]) acc xs = acc @ map f xs"
  by (induction xs arbitrary: acc) simp_all

lemma take3_parts:
  "3 \<le> length ps \<Longrightarrow> set (take 3 ps) = {ps ! 0, ps ! 1, ps ! 2}"
  by (cases ps; cases "tl ps"; cases "tl (tl ps)") auto

lemma parseDateFromFormat_short:
  "length (splitDate s) < 3 \<Longrightarrow> parseDateFromFormat tz s fmt = None"
  by (simp add: parseDateFromFormat_def)

lemma parseDateFromFormat_format:
  "\<not> (fmt = js ''Y/M/D'' \<or> fmt = js ''D/M/Y'' \<or> fmt = js ''M/D/Y'') \<Longrightarrow>
   parseDateFromFormat tz s fmt = None"
  by (simp add: parseDateFromFormat_def Let_def)

lemma parseDateFromFormat_NaN:
  assumes "\<exists>p \<in> set (take 3 (splitDate s)). parseInt10 p = None"
  shows "parseDateFromFormat tz s fmt = None"
proof (cases "length (splitDate s) < 3")
  case True
  then show ?thesis by (rule parseDateFromFormat_short)
next
  case False
  then have "set (take 3 (splitDate s)) = {splitDate s ! 0, splitDate s ! 1, splitDate s ! 2}"
    by (intro take3_parts) simp
  with assms have "parseInt10 (splitDate s ! 0) = None \<or> parseInt10 (splitDate s ! 1) = None \<or>
                   parseInt10 (splitDate s ! 2) = None"
    by auto
  then show ?thesis
    by (elim disjE) (simp_all add: parseDateFromFormat_def Let_def newDate_NaN)
qed

lemma parseDateFromFormat_numeric:
  assumes len: "3 \<le> length (splitDate s)"
    and fmt: "fmt = js ''Y/M/D'' \<or> fmt = js ''D/M/Y'' \<or> fmt = js ''M/D/Y''"
    and num: "\<forall>p \<in> set (take 3 (splitDate s)). \<exists>n. parseInt10 p = Some n \<and> \<bar>n\<bar> \<le> 9999"
    and tz: "\<bar>tz\<bar> \<le> msPerDay"
  shows "parseDateFromFormat tz s fmt \<noteq> None"
proof -
  have parts: "set (take 3 (splitDate s)) = {splitDate s ! 0, splitDate s ! 1, splitDate s ! 2}"
    using len by (rule take3_parts)
  from num parts obtain a b c where
    a: "parseInt10 (splitDate s ! 0) = Some a" "\<bar>a\<bar> \<le> 9999" and
    b: "parseInt10 (splitDate s ! 1) = Some b" "\<bar>b\<bar> \<le> 9999" and
    c: "parseInt10 (splitDate s ! 2) = Some c" "\<bar>c\<bar> \<le> 9999"
    by auto
  have v: "newDate tz (Some y) (Some (m - 1)) (Some d) \<noteq> None"
    if "\<bar>y\<bar> \<le> 9999" "\<bar>m\<bar> \<le> 9999" "\<bar>d\<bar> \<le> 9999" for y m d
    using that by (intro newDate_numeric tz) linarith+
  have js_ne: "js ''D/M/Y'' \<noteq> js ''Y/M/D''" "js ''M/D/Y'' \<noteq> js ''Y/M/D''"
    "js ''M/D/Y'' \<noteq> js ''D/M/Y''"
    by (simp_all add: js_def)
  from fmt show ?thesis
  proof (elim disjE)
    assume "fmt = js ''Y/M/D''"
    then show ?thesis using len a b c v [of a b c]
      by (simp add: parseDateFromFormat_def Let_def)
  next
    assume "fmt = js ''D/M/Y''"
    then show ?thesis using len a b c v [of c b a] js_ne
      by (simp add: parseDateFromFormat_def Let_def)
  next
    assume "fmt = js ''M/D/Y''"
    then show ?thesis using len a b c v [of c a b] js_ne
      by (simp add: parseDateFromFormat_def Let_def)
  qed
qed

text \<open>
  Claim C2, as the code has it. The normalization is invalid whenever the string has fewer
  than three parts, the format is not one of the three, or one of the first three parts
  does not start (after white space and a sign) with a decimal digit. In no other case is
  it invalid, as far as parts of at most four digits and a time zone within a day of UTC
  go: a numeric component out of calendar range is never rejected, \<open>MakeDay\<close> carries it
  into the adjacent months and years.
\<close>

theorem parseDateFromFormat_invalid_cases:
  "(length (splitDate s) < 3 \<longrightarrow> parseDateFromFormat tz s fmt = None) \<and>
   (\<not> (fmt = js ''Y/M/D'' \<or> fmt = js ''D/M/Y'' \<or> fmt = js ''M/D/Y'') \<longrightarrow>
      parseDateFromFormat tz s fmt = None) \<and>
   ((\<exists>p \<in> set (take 3 (splitDate s)). parseInt10 p = None) \<longrightarrow>
      parseDateFromFormat tz s fmt = None) \<and>
   (3 \<le> length (splitDate s) \<and>
    (fmt = js ''Y/M/D'' \<or> fmt = js ''D/M/Y'' \<or> fmt = js ''M/D/Y'') \<and>
    (\<forall>p \<in> set (take 3 (splitDate s)). \<exists>n. parseInt10 p = Some n \<and> \<bar>n\<bar> \<le> 9999) \<and>
    \<bar>tz\<bar> \<le> msPerDay \<longrightarrow>
      parseDateFromFormat tz s fmt \<noteq> None)"
  using parseDateFromFormat_short [of s tz fmt] parseDateFromFormat_format [of fmt tz s]
    parseDateFromFormat_NaN [of s tz fmt] parseDateFromFormat_numeric [of s fmt tz]
  by blast

lemma js_formats_distinct:
  "js ''D/M/Y'' \<noteq> js ''Y/M/D''" "js ''M/D/Y'' \<noteq> js ''Y/M/D''"
  "js ''M/D/Y'' \<noteq> js ''D/M/Y''"
  by (simp_all add: js_def)

lemma splitDate_examples:
  "splitDate (js ''13/13/2024'') = [js ''13'', js ''13'', js ''2024'']"
  "splitDate (js ''13/x/2024'') = [js ''13'', js ''x'', js ''2024'']"
  "splitDate (js ''2024-01'') = [js ''2024'', js ''01'']"
  "splitDate (160 # js ''2024/1/5'') = [160 # js ''2024'', js ''1'', js ''5'']"
  by (simp_all add: js_def)

lemma parseInt10_examples:
  "parseInt10 (js ''13'') = Some 13" "parseInt10 (js ''2024'') = Some 2024"
  "parseInt10 (js ''1'') = Some 1" "parseInt10 (js ''5'') = Some 5"
  "parseInt10 (160 # js ''2024'') = Some 2024" "parseInt10 (js ''x'') = None"
  by (simp_all add: parseInt10_def js_def isWhiteSpace_def isDecimalDigit_def decimalValue_def)

theorem parseDateFromFormat_invalid_cases_witness:
  "length (splitDate (js ''2024-01'')) < 3 \<and>
   parseDateFromFormat 0 (js ''2024-01'') (js ''Y/M/D'') = None \<and>
   parseDateFromFormat 0 (js ''13/13/2024'') (js ''d/m/y'') = None \<and>
   parseInt10 (js ''x'') = None \<and>
   parseDateFromFormat 0 (js ''13/x/2024'') (js ''D/M/Y'') = None \<and>
   3 \<le> length (splitDate (js ''13/13/2024'')) \<and>
   parseInt10 (js ''13'') = Some 13 \<and> parseInt10 (js ''2024'') = Some 2024 \<and>
   \<bar>0 :: int\<bar> \<le> msPerDay \<and>
   parseDateFromFormat 0 (js ''13/13/2024'') (js ''D/M/Y'') \<noteq> None \<and>
   parseInt10 (160 # js ''2024'') = Some 2024 \<and>
   parseDateFromFormat 0 (160 # js ''2024/1/5'') (js ''Y/M/D'') \<noteq> None"
proof -
  have tz: "\<bar>0 :: int\<bar> \<le> msPerDay" by (simp add: msPerDay_def)
  have short: "length (splitDate (js ''2024-01'')) < 3"
    by (simp only: splitDate_examples) simp
  have r1: "parseDateFromFormat 0 (js ''2024-01'') (js ''Y/M/D'') = None"
    using parseDateFromFormat_invalid_cases [of "js ''2024-01''" 0 "js ''Y/M/D''"] short
    by blast
  have "\<not> (js ''d/m/y'' = js ''Y/M/D'' \<or> js ''d/m/y'' = js ''D/M/Y'' \<or> js ''d/m/y'' = js ''M/D/Y'')"
    by (simp add: js_def)
  then have r2: "parseDateFromFormat 0 (js ''13/13/2024'') (js ''d/m/y'') = None"
    using parseDateFromFormat_invalid_cases [of "js ''13/13/2024''" 0 "js ''d/m/y''"] by blast
  have "\<exists>p \<in> set (take 3 (splitDate (js ''13/x/2024''))). parseInt10 p = None"
    by (simp only: splitDate_examples) (simp add: parseInt10_examples)
  then have r3: "parseDateFromFormat 0 (js ''13/x/2024'') (js ''D/M/Y'') = None"
    using parseDateFromFormat_invalid_cases [of "js ''13/x/2024''" 0 "js ''D/M/Y''"] by blast
  have len: "3 \<le> length (splitDate (js ''13/13/2024''))"
    by (simp only: splitDate_examples) simp
  have num: "\<forall>p \<in> set (take 3 (splitDate (js ''13/13/2024''))).
               \<exists>n. parseInt10 p = Some n \<and> \<bar>n\<bar> \<le> 9999"
    by (simp only: splitDate_examples) (simp add: parseInt10_examples)
  have r4: "parseDateFromFormat 0 (js ''13/13/2024'') (js ''D/M/Y'') \<noteq> None"
    using parseDateFromFormat_invalid_cases [of "js ''13/13/2024''" 0 "js ''D/M/Y''"] len num tz
    by blast
  have len': "3 \<le> length (splitDate (160 # js ''2024/1/5''))"
    by (simp only: splitDate_examples) simp
  have num': "\<forall>p \<in> set (take 3 (splitDate (160 # js ''2024/1/5''))).
               \<exists>n. parseInt10 p = Some n \<and> \<bar>n\<bar> \<le> 9999"
    by (simp only: splitDate_examples) (simp add: parseInt10_examples)
  have r5: "parseDateFromFormat 0 (160 # js ''2024/1/5'') (js ''Y/M/D'') \<noteq> None"
    using parseDateFromFormat_invalid_cases [of "160 # js ''2024/1/5''" 0 "js ''Y/M/D''"]
      len' num' tz
    by blast
  show ?thesis
    by (intro conjI short r1 r2 r3 len tz r4 r5 parseInt10_examples)
qed

text \<open>
  The claim as stated fails: \<open>13/13/2024\<close> read as day/month/year is not invalid, it is
  13 January 2025 (month 13 of 2024).
\<close>

theorem parseDateFromFormat_wraps_counterexample:
  "parseDateFromFormat 0 (js ''13/13/2024'') (js ''D/M/Y'') = Some 1736726400000 \<and>
   toISODate 0 (parseDateFromFormat 0 (js ''13/13/2024'') (js ''D/M/Y'')) = ''2025-01-13''"
proof -
  have "parseDateFromFormat 0 (js ''13/13/2024'') (js ''D/M/Y'') =
          newDate 0 (Some 2024) (Some 12) (Some 13)"
    by (simp add: parseDateFromFormat_def Let_def splitDate_examples parseInt10_examples
                  js_formats_distinct)
  moreover have "newDate 0 (Some 2024) (Some 12) (Some 13) = Some 1736726400000"
    by code_simp
  moreover have "toISODate 0 (Some 1736726400000) = ''2025-01-13''"
    by code_simp
  ultimately show ?thesis by simp
qed

text \<open>A no-break space before the year is skipped, as \<open>parseInt\<close> does.\<close>

lemma parseDateFromFormat_no_break_space:
  "toISODate 0 (parseDateFromFormat 0 (160 # js ''2024/1/5'') (js ''Y/M/D'')) = ''2024-01-05''"
proof -
  have "parseDateFromFormat 0 (160 # js ''2024/1/5'') (js ''Y/M/D'') =
          newDate 0 (Some 2024) (Some 0) (Some 5)"
    unfolding parseDateFromFormat_def Let_def splitDate_examples
    by (simp add: parseInt10_examples)
  moreover have "toISODate 0 (newDate 0 (Some 2024) (Some 0) (Some 5)) = ''2024-01-05''"
    by code_simp
  ultimately show ?thesis by simp
qed

subsection \<open>\<open>generateFutureDates\<close>\<close>

lemma length_upto_1: "length [1 .. n] = nat n"
  by simp

text \<open>
  Claim C7, as the code has it. When the anchor date string is not understood (the parsed
  date is invalid), \<open>generateFutureDates\<close> does not fail: for a count \<open>n \<ge> 1\<close> it returns the
  \<open>n\<close> labels \<open>Futuro +1\<close>, ..., \<open>Futuro +n\<close> (the label text of the code is
  \<open>Futuro\<close>, not \<open>Future\<close>).
\<close>

theorem generateFutureDates_fallback:
  assumes "parse s = None" and "1 \<le> n"
  shows "generateFutureDates parse tz s n = map (\<lambda>i. ''Futuro +'' @ showInt i) [1 .. n] \<and>
         length (generateFutureDates parse tz s n) = nat n"
  using assms by (simp add: generateFutureDates_def foldl_push)

lemma parseISODate_not_a_date: "parseISODate ''not-a-date'' = None"
  by (simp add: parseISODate_def)

lemma upto_1_2: "[1 .. 2 :: int] = [1, 2]"
  by code_simp

lemma showInt_1_2: "showInt 1 = ''1''" "showInt 2 = ''2''"
  by code_simp+

theorem generateFutureDates_fallback_witness:
  "parseISODate ''not-a-date'' = None \<and> (1::int) \<le> 2 \<and>
   generateFutureDates parseISODate 0 ''not-a-date'' 2 = [''Futuro +1'', ''Futuro +2''] \<and>
   length (generateFutureDates parseISODate 0 ''not-a-date'' 2) = 2"
  using generateFutureDates_fallback
          [where parse = parseISODate and s = "''not-a-date''" and n = 2 and tz = 0]
  by (simp add: parseISODate_not_a_date upto_1_2 showInt_1_2)

text \<open>
  The claim as stated fails on the label text: for \<open>not-a-date\<close> and 2 the result is
  \<open>["Futuro +1", "Futuro +2"]\<close>, which is not \<open>["Future +1", "Future +2"]\<close>.
\<close>

theorem generateFutureDates_label_counterexample:
  "generateFutureDates parseISODate 0 ''not-a-date'' 2 = [''Futuro +1'', ''Futuro +2''] \<and>
   generateFutureDates parseISODate 0 ''not-a-date'' 2 \<noteq> [''Future +1'', ''Future +2'']"
  by (simp add: generateFutureDates_def parseISODate_not_a_date upto_1_2 showInt_1_2)

section \<open>Properties of the sweep\<close>

lemma js_less_Num: "js_less a b \<Longrightarrow> \<exists>x. a = Num x"
  by (cases a; cases b) simp_all

lemma js_less_trans: "js_less a b \<Longrightarrow> js_less b c \<Longrightarrow> js_less a c"
  by (cases a; cases b; cases c) simp_all

lemma js_less_irrefl: "\<not> js_less a a"
  by (cases a) simp_all

lemma js_less_Infinity: "js_less a Infinity \<longleftrightarrow> (\<exists>x. a = Num x)"
  by (cases a) simp_all

lemma js_less_below: "js_less a b \<Longrightarrow> \<not> js_less c b \<Longrightarrow> c = Num e \<Longrightarrow> js_less a (Num e)"
  by (cases a; cases b) auto

lemma model_id_evalCombo: "model_id (fst (evalCombo fit tr te cs i)) = i"
  by (simp add: evalCombo_def trainAndEvaluate_def Let_def)

lemma inputWindow_evalCombo: "inputWindow (fst (evalCombo fit tr te cs i)) = fst (cs ! i)"
  by (simp add: evalCombo_def trainAndEvaluate_def Let_def)

lemma sweepAt_0: "sweepAt fit clock tr te cs 0 = sweep_init"
  by (simp add: sweepAt_def sweepFrom_def)

lemma sweepAt_Suc:
  "n < length cs \<Longrightarrow>
   sweepAt fit clock tr te cs (Suc n) =
     sweep_step fit clock tr te (length cs) (sweepAt fit clock tr te cs n) (cs ! n)"
  by (simp add: sweepAt_def sweepFrom_def take_Suc_conv_app_nth)

lemma sweepAt_all: "sweepAt fit clock tr te cs (length cs) = runSweep fit clock tr te cs"
  by (simp add: sweepAt_def runSweep_def)

lemma sweep_step_eval:
  "combosProcessed s = n \<Longrightarrow>
   sweep_step fit clock tr te tot s (cs ! n) =
     report clock tot
       (select (created s (fst (evalCombo fit tr te cs n))) (fst (cs ! n))
          (fst (evalCombo fit tr te cs n)) (mapeOf fit tr te cs n))"
  by (simp add: sweep_step_def evalCombo_def mapeOf_def Let_def)

lemma report_fields:
  "bestMape (report clock tot s) = bestMape s"
  "bestModel (report clock tot s) = bestModel s"
  "bestWindowSize (report clock tot s) = bestWindowSize s"
  "live (report clock tot s) = live s"
  "combosProcessed (report clock tot s) = Suc (combosProcessed s)"
  by (simp_all add: report_def Let_def)

lemma created_fields:
  "bestMape (created s m) = bestMape s"
  "bestModel (created s m) = bestModel s"
  "bestWindowSize (created s m) = bestWindowSize s"
  "live (created s m) = model_id m # live s"
  "combosProcessed (created s m) = combosProcessed s"
  by (simp_all add: created_def)

lemma select_fields:
  "bestMape (select s w m e) = (if js_less e (bestMape s) then e else bestMape s)"
  "bestModel (select s w m e) = (if js_less e (bestMape s) then Some m else bestModel s)"
  "bestWindowSize (select s w m e) = (if js_less e (bestMape s) then w else bestWindowSize s)"
  "combosProcessed (select s w m e) = combosProcessed s"
  "live (select s w m e) =
     (if js_less e (bestMape s)
      then (case bestModel s of None \<Rightarrow> live s | Some b \<Rightarrow> removeAll (model_id b) (live s))
      else removeAll (model_id m) (live s))"
  by (simp_all add: select_def dispose_def split: option.splits)

lemma sweepInv_init: "sweepInv fit tr te cs 0 sweep_init"
  by (simp add: sweepInv_def sweep_init_def)

lemma sweepInvI_None:
  assumes "combosProcessed s = n" "bestModel s = None" "bestMape s = Infinity" "live s = []"
    "bestWindowSize s = 3" "\<forall>i<n. \<not> js_less (mapeOf fit tr te cs i) Infinity"
  shows "sweepInv fit tr te cs n s"
  using assms by (simp add: sweepInv_def)

lemma sweepInvI_Some:
  assumes "combosProcessed s = n" "bestModel s = Some b" "live s = [model_id b]" "k < n"
    "b = fst (evalCombo fit tr te cs k)" "bestMape s = mapeOf fit tr te cs k"
    "bestWindowSize s = fst (cs ! k)" "js_less (mapeOf fit tr te cs k) Infinity"
    "\<forall>j<k. \<forall>x. mapeOf fit tr te cs j = Num x \<longrightarrow> js_less (mapeOf fit tr te cs k) (Num x)"
    "\<forall>j. k < j \<and> j < n \<longrightarrow> \<not> js_less (mapeOf fit tr te cs j) (mapeOf fit tr te cs k)"
  shows "sweepInv fit tr te cs n s"
  unfolding sweepInv_def using assms(1,2,3) 
  by (simp only: option.case) (use assms in blast)

lemma sweepInv_step:
  assumes inv: "sweepInv fit tr te cs n s"
  shows "sweepInv fit tr te cs (Suc n) (sweep_step fit clock tr te tot s (cs ! n))"
proof -
  define e where "e = mapeOf fit tr te cs n"
  define m where "m = fst (evalCombo fit tr te cs n)"
  define t where "t = report clock tot (select (created s m) (fst (cs ! n)) m e)"
  have cp: "combosProcessed s = n" using inv by (simp add: sweepInv_def)
  have step: "sweep_step fit clock tr te tot s (cs ! n) = t"
    using sweep_step_eval [OF cp] by (simp add: t_def m_def e_def)
  have idm: "model_id m = n" by (simp add: m_def model_id_evalCombo)
  have cpt: "combosProcessed t = Suc n"
    by (simp add: t_def report_fields select_fields created_fields cp)
  have bmt: "bestModel t = (if js_less e (bestMape s) then Some m else bestModel s)"
    by (simp add: t_def report_fields select_fields created_fields)
  have bet: "bestMape t = (if js_less e (bestMape s) then e else bestMape s)"
    by (simp add: t_def report_fields select_fields created_fields)
  have bwt: "bestWindowSize t = (if js_less e (bestMape s) then fst (cs ! n) else bestWindowSize s)"
    by (simp add: t_def report_fields select_fields created_fields)
  have lvt: "live t = (if js_less e (bestMape s)
      then (case bestModel s of None \<Rightarrow> n # live s | Some b \<Rightarrow> removeAll (model_id b) (n # live s))
      else removeAll n (n # live s))"
    by (simp add: t_def report_fields select_fields created_fields idm split: option.split)
  show ?thesis unfolding step
  proof (cases "bestModel s")
    case None
    with inv have bm: "bestMape s = Infinity" and lv: "live s = []"
      and bw: "bestWindowSize s = 3"
      and none: "\<forall>i<n. \<not> js_less (mapeOf fit tr te cs i) Infinity"
      by (simp_all add: sweepInv_def)
    show "sweepInv fit tr te cs (Suc n) t"
    proof (cases "js_less e Infinity")
      case True
      have vac: "\<forall>j<n. \<forall>x. mapeOf fit tr te cs j = Num x \<longrightarrow> js_less (mapeOf fit tr te cs n) (Num x)"
        using none by (auto simp: js_less_Infinity)
      show ?thesis
      proof (rule sweepInvI_Some [where k = n and b = m])
        show "combosProcessed t = Suc n" by (rule cpt)
        show "bestModel t = Some m" using True by (simp add: bmt bm)
        show "live t = [model_id m]" using True by (simp add: lvt bm None lv idm)
        show "n < Suc n" by simp
        show "m = fst (evalCombo fit tr te cs n)" by (rule m_def)
        show "bestMape t = mapeOf fit tr te cs n" using True by (simp add: bet bm e_def)
        show "bestWindowSize t = fst (cs ! n)" using True by (simp add: bwt bm)
        show "js_less (mapeOf fit tr te cs n) Infinity" using True by (simp add: e_def)
        show "\<forall>j<n. \<forall>x. mapeOf fit tr te cs j = Num x \<longrightarrow> js_less (mapeOf fit tr te cs n) (Num x)"
          by (rule vac)
        show "\<forall>j. n < j \<and> j < Suc n \<longrightarrow>
                \<not> js_less (mapeOf fit tr te cs j) (mapeOf fit tr te cs n)" by auto
      qed
    next
      case False
      show ?thesis
      proof (rule sweepInvI_None)
        show "combosProcessed t = Suc n" by (rule cpt)
        show "bestModel t = None" using False by (simp add: bmt bm None)
        show "bestMape t = Infinity" using False by (simp add: bet bm)
        show "live t = []" using False by (simp add: lvt bm lv)
        show "bestWindowSize t = 3" using False by (simp add: bwt bm bw)
        show "\<forall>i<Suc n. \<not> js_less (mapeOf fit tr te cs i) Infinity"
          using none False by (simp add: less_Suc_eq e_def)
      qed
    qed
  next
    case (Some b)
    with inv obtain k where k: "k < n" and lv: "live s = [model_id b]"
      and b: "b = fst (evalCombo fit tr te cs k)"
      and bm: "bestMape s = mapeOf fit tr te cs k"
      and bw: "bestWindowSize s = fst (cs ! k)"
      and fin: "js_less (mapeOf fit tr te cs k) Infinity"
      and before: "\<forall>j<k. \<forall>x. mapeOf fit tr te cs j = Num x \<longrightarrow> js_less (mapeOf fit tr te cs k) (Num x)"
      and after: "\<forall>j. k < j \<and> j < n \<longrightarrow> \<not> js_less (mapeOf fit tr te cs j) (mapeOf fit tr te cs k)"
      unfolding sweepInv_def by (simp only: option.case) blast
    have idb: "model_id b = k" by (simp add: b model_id_evalCombo)
    have kn: "k \<noteq> n" using k by simp
    show "sweepInv fit tr te cs (Suc n) t"
    proof (cases "js_less e (mapeOf fit tr te cs k)")
      case True
      then have True': "js_less (mapeOf fit tr te cs n) (mapeOf fit tr te cs k)"
        by (simp add: e_def)
      show ?thesis
      proof (rule sweepInvI_Some [where k = n and b = m])
        show "combosProcessed t = Suc n" by (rule cpt)
        show "bestModel t = Some m" using True by (simp add: bmt bm)
        show "live t = [model_id m]" using True kn by (simp add: lvt bm Some lv idm idb)
        show "n < Suc n" by simp
        show "m = fst (evalCombo fit tr te cs n)" by (rule m_def)
        show "bestMape t = mapeOf fit tr te cs n" using True by (simp add: bet bm e_def)
        show "bestWindowSize t = fst (cs ! n)" using True by (simp add: bwt bm)
        show "js_less (mapeOf fit tr te cs n) Infinity" using True' fin by (rule js_less_trans)
        show "\<forall>j<n. \<forall>x. mapeOf fit tr te cs j = Num x \<longrightarrow> js_less (mapeOf fit tr te cs n) (Num x)"
        proof (intro allI impI)
          fix j x assume j: "j < n" and jx: "mapeOf fit tr te cs j = Num x"
          consider "j < k" | "j = k" | "k < j" by linarith
          then show "js_less (mapeOf fit tr te cs n) (Num x)"
          proof cases
            case 1
            with before jx have "js_less (mapeOf fit tr te cs k) (Num x)" by blast
            with True' show ?thesis by (rule js_less_trans)
          next
            case 2
            with True' jx show ?thesis by simp
          next
            case 3
            with after j have "\<not> js_less (mapeOf fit tr te cs j) (mapeOf fit tr te cs k)" by blast
            with True' show ?thesis using jx by (rule js_less_below)
          qed
        qed
        show "\<forall>j. n < j \<and> j < Suc n \<longrightarrow>
                \<not> js_less (mapeOf fit tr te cs j) (mapeOf fit tr te cs n)" by auto
      qed
    next
      case False
      show ?thesis
      proof (rule sweepInvI_Some [where k = k and b = b])
        show "combosProcessed t = Suc n" by (rule cpt)
        show "bestModel t = Some b" using False by (simp add: bmt bm Some)
        show "live t = [model_id b]" using False kn by (simp add: lvt bm lv idb)
        show "k < Suc n" using k by simp
        show "b = fst (evalCombo fit tr te cs k)" by (rule b)
        show "bestMape t = mapeOf fit tr te cs k" using False by (simp add: bet bm)
        show "bestWindowSize t = fst (cs ! k)" using False by (simp add: bwt bm bw)
        show "js_less (mapeOf fit tr te cs k) Infinity" by (rule fin)
        show "\<forall>j<k. \<forall>x. mapeOf fit tr te cs j = Num x \<longrightarrow> js_less (mapeOf fit tr te cs k) (Num x)"
          by (rule before)
        show "\<forall>j. k < j \<and> j < Suc n \<longrightarrow>
                \<not> js_less (mapeOf fit tr te cs j) (mapeOf fit tr te cs k)"
          using after False by (auto simp: less_Suc_eq e_def)
      qed
    qed
  qed
qed

lemma sweepInv_sweepAt:
  "n \<le> length cs \<Longrightarrow> sweepInv fit tr te cs n (sweepAt fit clock tr te cs n)"
proof (induction n)
  case 0
  show ?case by (simp add: sweepAt_0 sweepInv_init)
next
  case (Suc n)
  then have "sweepInv fit tr te cs n (sweepAt fit clock tr te cs n)" by simp
  from sweepInv_step [OF this, of clock "length cs"] Suc.prems
  show ?case by (simp add: sweepAt_Suc)
qed

lemma sweepInv_runSweep:
  "sweepInv fit tr te cs (length cs) (runSweep fit clock tr te cs)"
  using sweepInv_sweepAt [of "length cs" cs fit tr te clock] by (simp add: sweepAt_all)

lemma sweepAt_step_fields:
  assumes "n < length cs"
  shows "bestModel (sweepAt fit clock tr te cs (Suc n)) =
           (if js_less (mapeOf fit tr te cs n) (bestMape (sweepAt fit clock tr te cs n))
            then Some (fst (evalCombo fit tr te cs n))
            else bestModel (sweepAt fit clock tr te cs n))"
    and "bestMape (sweepAt fit clock tr te cs (Suc n)) =
           (if js_less (mapeOf fit tr te cs n) (bestMape (sweepAt fit clock tr te cs n))
            then mapeOf fit tr te cs n
            else bestMape (sweepAt fit clock tr te cs n))"
    and "bestWindowSize (sweepAt fit clock tr te cs (Suc n)) =
           (if js_less (mapeOf fit tr te cs n) (bestMape (sweepAt fit clock tr te cs n))
            then fst (cs ! n)
            else bestWindowSize (sweepAt fit clock tr te cs n))"
    and "live (sweepAt fit clock tr te cs (Suc n)) =
           live (select (created (sweepAt fit clock tr te cs n) (fst (evalCombo fit tr te cs n)))
                   (fst (cs ! n)) (fst (evalCombo fit tr te cs n)) (mapeOf fit tr te cs n))"
proof -
  have "combosProcessed (sweepAt fit clock tr te cs n) = n"
    using sweepInv_sweepAt [of n cs fit tr te clock] assms by (simp add: sweepInv_def)
  from sweep_step_eval [OF this]
  have step: "sweepAt fit clock tr te cs (Suc n) =
      report clock (length cs)
        (select (created (sweepAt fit clock tr te cs n) (fst (evalCombo fit tr te cs n)))
           (fst (cs ! n)) (fst (evalCombo fit tr te cs n)) (mapeOf fit tr te cs n))"
    using assms by (simp add: sweepAt_Suc)
  show "bestModel (sweepAt fit clock tr te cs (Suc n)) =
           (if js_less (mapeOf fit tr te cs n) (bestMape (sweepAt fit clock tr te cs n))
            then Some (fst (evalCombo fit tr te cs n))
            else bestModel (sweepAt fit clock tr te cs n))"
    by (simp only: step report_fields select_fields created_fields)
  show "bestMape (sweepAt fit clock tr te cs (Suc n)) =
           (if js_less (mapeOf fit tr te cs n) (bestMape (sweepAt fit clock tr te cs n))
            then mapeOf fit tr te cs n
            else bestMape (sweepAt fit clock tr te cs n))"
    by (simp only: step report_fields select_fields created_fields)
  show "bestWindowSize (sweepAt fit clock tr te cs (Suc n)) =
           (if js_less (mapeOf fit tr te cs n) (bestMape (sweepAt fit clock tr te cs n))
            then fst (cs ! n)
            else bestWindowSize (sweepAt fit clock tr te cs n))"
    by (simp only: step report_fields select_fields created_fields)
  show "live (sweepAt fit clock tr te cs (Suc n)) =
           live (select (created (sweepAt fit clock tr te cs n) (fst (evalCombo fit tr te cs n)))
                   (fst (cs ! n)) (fst (evalCombo fit tr te cs n)) (mapeOf fit tr te cs n))"
    by (simp only: step report_fields)
qed

lemma runSweep_winner:
  assumes "bestModel (runSweep fit clock tr te cs) = Some b"
  obtains k where "k < length cs" "b = fst (evalCombo fit tr te cs k)" "model_id b = k"
    "bestMape (runSweep fit clock tr te cs) = mapeOf fit tr te cs k"
    "bestWindowSize (runSweep fit clock tr te cs) = fst (cs ! k)"
    "js_less (mapeOf fit tr te cs k) Infinity"
    "\<forall>j<k. \<forall>x. mapeOf fit tr te cs j = Num x \<longrightarrow> js_less (mapeOf fit tr te cs k) (Num x)"
    "\<forall>j. k < j \<and> j < length cs \<longrightarrow>
          \<not> js_less (mapeOf fit tr te cs j) (mapeOf fit tr te cs k)"
proof -
  from sweepInv_runSweep [of fit tr te cs clock] assms
  obtain k where "k < length cs" "b = fst (evalCombo fit tr te cs k)"
    "bestMape (runSweep fit clock tr te cs) = mapeOf fit tr te cs k"
    "bestWindowSize (runSweep fit clock tr te cs) = fst (cs ! k)"
    "js_less (mapeOf fit tr te cs k) Infinity"
    "\<forall>j<k. \<forall>x. mapeOf fit tr te cs j = Num x \<longrightarrow> js_less (mapeOf fit tr te cs k) (Num x)"
    "\<forall>j. k < j \<and> j < length cs \<longrightarrow>
          \<not> js_less (mapeOf fit tr te cs j) (mapeOf fit tr te cs k)"
    unfolding sweepInv_def by (simp only: option.case) blast
  moreover from this have "model_id b = k" by (simp add: model_id_evalCombo)
  ultimately show thesis using that by blast
qed

lemma runSweep_no_winner:
  assumes "bestModel (runSweep fit clock tr te cs) = None"
  shows "\<forall>i<length cs. \<not> js_less (mapeOf fit tr te cs i) Infinity"
  using sweepInv_runSweep [of fit tr te cs clock] assms by (simp add: sweepInv_def)

lemma later_tie_loses:
  assumes "i < j" "j < length cs" "mapeOf fit tr te cs i = mapeOf fit tr te cs j"
  shows "map_option model_id (bestModel (runSweep fit clock tr te cs)) \<noteq> Some j"
proof
  assume "map_option model_id (bestModel (runSweep fit clock tr te cs)) = Some j"
  then obtain b where b: "bestModel (runSweep fit clock tr te cs) = Some b" "model_id b = j"
    by auto
  from runSweep_winner [OF b(1)] obtain k where k: "k < length cs" "model_id b = k"
    "js_less (mapeOf fit tr te cs k) Infinity"
    "\<forall>j<k. \<forall>x. mapeOf fit tr te cs j = Num x \<longrightarrow> js_less (mapeOf fit tr te cs k) (Num x)"
    by blast
  with b have kj: "k = j" by simp
  from k(3) obtain x where x: "mapeOf fit tr te cs j = Num x"
    unfolding kj using js_less_Num by blast
  with assms have "mapeOf fit tr te cs i = Num x" by simp
  with k(4) assms(1) kj have "js_less (mapeOf fit tr te cs j) (Num x)" by blast
  with x show False by (simp add: js_less_irrefl)
qed

lemma first_minimum_wins:
  assumes i: "i < length cs" and ix: "mapeOf fit tr te cs i = Num x"
    and first: "\<forall>l<i. mapeOf fit tr te cs l \<noteq> Num x"
    and least: "\<forall>l<length cs. \<not> js_less (mapeOf fit tr te cs l) (Num x)"
  shows "map_option model_id (bestModel (runSweep fit clock tr te cs)) = Some i"
proof (cases "bestModel (runSweep fit clock tr te cs)")
  case None
  from runSweep_no_winner [OF this] i ix show ?thesis by auto
next
  case (Some b)
  from runSweep_winner [OF Some] obtain k where k: "k < length cs" "model_id b = k"
    "js_less (mapeOf fit tr te cs k) Infinity"
    "\<forall>j<k. \<forall>x. mapeOf fit tr te cs j = Num x \<longrightarrow> js_less (mapeOf fit tr te cs k) (Num x)"
    "\<forall>j. k < j \<and> j < length cs \<longrightarrow>
          \<not> js_less (mapeOf fit tr te cs j) (mapeOf fit tr te cs k)"
    by blast
  from k(3) obtain y where y: "mapeOf fit tr te cs k = Num y" using js_less_Num by blast
  have "k = i"
  proof (rule ccontr)
    assume "k \<noteq> i"
    then consider "k < i" | "i < k" by linarith
    then show False
    proof cases
      case 1
      with k(5) i have "\<not> js_less (mapeOf fit tr te cs i) (mapeOf fit tr te cs k)" by blast
      then have "\<not> x < y" by (simp add: ix y)
      moreover from least k(1) have "\<not> y < x" using y by fastforce
      ultimately have "y = x" by simp
      with first 1 y show False by blast
    next
      case 2
      with k(4) ix have "js_less (mapeOf fit tr te cs k) (Num x)" by blast
      with least k(1) show False by blast
    qed
  qed
  with Some k(2) show ?thesis by simp
qed

text \<open>
  Claim C4. In the sweep a newly evaluated candidate becomes the best model exactly when
  its test error is strictly less (JavaScript \<open><\<close>) than the best error so far; when two
  configurations have the same test error the later one is never retained, and a
  configuration that is the first to reach the least error is the one retained.
\<close>

theorem sweep_first_seen_wins:
  "(\<forall>n<length cs.
      bestModel (sweepAt fit clock tr te cs (Suc n)) =
        (if js_less (mapeOf fit tr te cs n) (bestMape (sweepAt fit clock tr te cs n))
         then Some (fst (evalCombo fit tr te cs n))
         else bestModel (sweepAt fit clock tr te cs n))) \<and>
   (\<forall>i j. i < j \<and> j < length cs \<and> mapeOf fit tr te cs i = mapeOf fit tr te cs j \<longrightarrow>
      map_option model_id (bestModel (runSweep fit clock tr te cs)) \<noteq> Some j) \<and>
   (\<forall>i x. i < length cs \<and> mapeOf fit tr te cs i = Num x \<and>
          (\<forall>l<i. mapeOf fit tr te cs l \<noteq> Num x) \<and>
          (\<forall>l<length cs. \<not> js_less (mapeOf fit tr te cs l) (Num x)) \<longrightarrow>
      map_option model_id (bestModel (runSweep fit clock tr te cs)) = Some i)"
proof (intro conjI allI impI)
  fix n assume "n < length cs"
  then show "bestModel (sweepAt fit clock tr te cs (Suc n)) =
        (if js_less (mapeOf fit tr te cs n) (bestMape (sweepAt fit clock tr te cs n))
         then Some (fst (evalCombo fit tr te cs n))
         else bestModel (sweepAt fit clock tr te cs n))"
    by (rule sweepAt_step_fields(1))
next
  fix i j assume "i < j \<and> j < length cs \<and> mapeOf fit tr te cs i = mapeOf fit tr te cs j"
  then show "map_option model_id (bestModel (runSweep fit clock tr te cs)) \<noteq> Some j"
    using later_tie_loses by blast
next
  fix i x assume "i < length cs \<and> mapeOf fit tr te cs i = Num x \<and>
          (\<forall>l<i. mapeOf fit tr te cs l \<noteq> Num x) \<and>
          (\<forall>l<length cs. \<not> js_less (mapeOf fit tr te cs l) (Num x))"
  then show "map_option model_id (bestModel (runSweep fit clock tr te cs)) = Some i"
    using first_minimum_wins [of i cs fit tr te x clock] by blast
qed

lemma length_combos: "length combos = 4"
  by code_simp

lemma tie_run_errors:
  "map (mapeOf (\<lambda>w u X Y e window. 0) [] (replicate 7 \<lparr>date = [], val = 1\<rparr>) combos)
     [0, 1, 2, 3] = [Num 100, Num 100, Num 100, Num 100]"
  by code_simp

theorem sweep_first_seen_wins_witness:
  "(0::nat) < 1 \<and> 1 < length combos \<and>
   mapeOf (\<lambda>w u X Y e window. 0) [] (replicate 7 \<lparr>date = [], val = 1\<rparr>) combos 0 = Num 100 \<and>
   mapeOf (\<lambda>w u X Y e window. 0) [] (replicate 7 \<lparr>date = [], val = 1\<rparr>) combos 1 = Num 100 \<and>
   map_option model_id
     (bestModel (runSweep (\<lambda>w u X Y e window. 0) (\<lambda>k. real k) []
        (replicate 7 \<lparr>date = [], val = 1\<rparr>) combos)) \<noteq> Some 1 \<and>
   map_option model_id
     (bestModel (runSweep (\<lambda>w u X Y e window. 0) (\<lambda>k. real k) []
        (replicate 7 \<lparr>date = [], val = 1\<rparr>) combos)) = Some 0"
proof -
  let ?fit = "(\<lambda>w u X Y e window. 0) :: trainer"
  let ?te = "replicate 7 \<lparr>date = [], val = 1\<rparr>"
  let ?clock = "\<lambda>k. real k"
  have ev: "mapeOf ?fit [] ?te combos 0 = Num 100" "mapeOf ?fit [] ?te combos 1 = Num 100"
    "mapeOf ?fit [] ?te combos 2 = Num 100" "mapeOf ?fit [] ?te combos 3 = Num 100"
    using tie_run_errors by simp_all
  have all: "\<forall>l<length combos. \<not> js_less (mapeOf ?fit [] ?te combos l) (Num 100)"
  proof (intro allI impI)
    fix l assume "l < length combos"
    then have "l = 0 \<or> l = 1 \<or> l = 2 \<or> l = 3" unfolding length_combos by linarith
    with ev show "\<not> js_less (mapeOf ?fit [] ?te combos l) (Num 100)" by auto
  qed
  note inst = sweep_first_seen_wins [of combos ?fit ?clock "[]" ?te]
  have ne1: "map_option model_id (bestModel (runSweep ?fit ?clock [] ?te combos)) \<noteq> Some 1"
  proof -
    have "(0::nat) < 1 \<and> 1 < length combos \<and>
          mapeOf ?fit [] ?te combos 0 = mapeOf ?fit [] ?te combos 1"
      using ev by (simp add: length_combos)
    with inst show ?thesis by blast
  qed
  have eq0: "map_option model_id (bestModel (runSweep ?fit ?clock [] ?te combos)) = Some 0"
  proof -
    have "0 < length combos \<and> mapeOf ?fit [] ?te combos 0 = Num 100 \<and>
          (\<forall>l<0. mapeOf ?fit [] ?te combos l \<noteq> Num 100) \<and>
          (\<forall>l<length combos. \<not> js_less (mapeOf ?fit [] ?te combos l) (Num 100))"
      using ev all by (simp add: length_combos)
    with inst show ?thesis by blast
  qed
  show ?thesis
    by (intro conjI ev(1) ev(2) ne1 eq0) (simp_all add: length_combos)
qed

text \<open>
  Claim C8. At the head of every iteration only the current best model (if any) is live;
  while a candidate is compared there is exactly one more, the candidate; when the
  iteration ends only the (possibly new) best model is live again: the loser has been
  disposed.
\<close>

theorem sweep_live_models:
  assumes "n < length cs"
  shows "set (live (sweepAt fit clock tr te cs n)) =
           set_option (map_option model_id (bestModel (sweepAt fit clock tr te cs n))) \<and>
         length (live (sweepAt fit clock tr te cs n)) \<le> 1 \<and>
         live (created (sweepAt fit clock tr te cs n) (fst (evalCombo fit tr te cs n))) =
           n # live (sweepAt fit clock tr te cs n) \<and>
         n \<notin> set (live (sweepAt fit clock tr te cs n)) \<and>
         live (sweepAt fit clock tr te cs (Suc n)) =
           live (select (created (sweepAt fit clock tr te cs n) (fst (evalCombo fit tr te cs n)))
                   (fst (cs ! n)) (fst (evalCombo fit tr te cs n)) (mapeOf fit tr te cs n)) \<and>
         set (live (sweepAt fit clock tr te cs (Suc n))) =
           set_option (map_option model_id (bestModel (sweepAt fit clock tr te cs (Suc n)))) \<and>
         length (live (sweepAt fit clock tr te cs (Suc n))) \<le> 1"
proof -
  have live_inv: "set (live s) = set_option (map_option model_id (bestModel s)) \<and>
                  length (live s) \<le> 1 \<and> (\<forall>i \<in> set (live s). i < k)"
    if "sweepInv fit tr te cs k s" for k s
    using that unfolding sweepInv_def
    by (cases "bestModel s") (auto simp: model_id_evalCombo)
  have a: "sweepInv fit tr te cs n (sweepAt fit clock tr te cs n)"
    using assms by (intro sweepInv_sweepAt) simp
  have b: "sweepInv fit tr te cs (Suc n) (sweepAt fit clock tr te cs (Suc n))"
    using assms by (intro sweepInv_sweepAt) simp
  have "n \<notin> set (live (sweepAt fit clock tr te cs n))"
    using live_inv [OF a] by auto
  then show ?thesis
    using live_inv [OF a] live_inv [OF b] sweepAt_step_fields(4) [OF assms, of fit clock tr te]
    by (simp add: created_fields model_id_evalCombo)
qed

theorem sweep_live_models_witness:
  "(1::nat) < length combos \<and>
   live (sweepAt (\<lambda>w u X Y e window. if u = 64 then last window else 0) (\<lambda>k. real k) []
          (map (\<lambda>v. \<lparr>date = [], val = v\<rparr>) [1, 2, 3, 4, 5, 6, 7]) combos 1) = [0] \<and>
   live (created
          (sweepAt (\<lambda>w u X Y e window. if u = 64 then last window else 0) (\<lambda>k. real k) []
             (map (\<lambda>v. \<lparr>date = [], val = v\<rparr>) [1, 2, 3, 4, 5, 6, 7]) combos 1)
          (fst (evalCombo (\<lambda>w u X Y e window. if u = 64 then last window else 0) []
             (map (\<lambda>v. \<lparr>date = [], val = v\<rparr>) [1, 2, 3, 4, 5, 6, 7]) combos 1))) = [1, 0] \<and>
   live (sweepAt (\<lambda>w u X Y e window. if u = 64 then last window else 0) (\<lambda>k. real k) []
          (map (\<lambda>v. \<lparr>date = [], val = v\<rparr>) [1, 2, 3, 4, 5, 6, 7]) combos 2) = [1]"
proof -
  let ?fit = "(\<lambda>w u X Y e window. if u = 64 then last window else 0) :: trainer"
  let ?te = "map (\<lambda>v. \<lparr>date = [], val = v\<rparr>) [1, 2, 3, 4, 5, 6, 7]"
  let ?clock = "\<lambda>k. real k"
  have l1: "live (sweepAt ?fit ?clock [] ?te combos 1) = [0]" by code_simp
  have l2: "live (sweepAt ?fit ?clock [] ?te combos 2) = [1]" by code_simp
  have n: "(1::nat) < length combos" by (simp add: length_combos)
  from sweep_live_models [OF n, of ?fit ?clock "[]" ?te]
  have "live (created (sweepAt ?fit ?clock [] ?te combos 1) (fst (evalCombo ?fit [] ?te combos 1)))
          = 1 # live (sweepAt ?fit ?clock [] ?te combos 1)"
    by blast
  with l1 l2 n show ?thesis by simp
qed

section \<open>Properties of the pipeline\<close>

lemma slice_from_nonneg: "slice_from xs (int w) = drop w xs"
  by (simp add: slice_from_def js_index_def min_def)

lemma slice_from_last:
  "0 < w \<Longrightarrow> w \<le> length xs \<Longrightarrow> slice_from xs (- int w) = drop (length xs - w) xs"
  by (simp add: slice_from_def js_index_def max_def nat_diff_distrib')

lemma slice_from_1: "slice_from xs 1 = tl xs"
  by (simp add: slice_from_def js_index_def min_def drop_Suc) (cases xs; simp)

lemma slice_preceding:
  "w \<le> i \<Longrightarrow> i \<le> length xs \<Longrightarrow> slice xs (int i - int w) (int i) = take w (drop (i - w) xs)"
  by (simp add: slice_def js_index_def Let_def min_def nat_diff_distrib')

lemma predictWindows_map:
  "predictWindows f tv w = map (\<lambda>i. f (slice tv (int i - int w) (int i))) [w ..< length tv]"
  by (simp add: predictWindows_def foldl_push)

lemma predictWindows_length: "length (predictWindows f tv w) = length tv - w"
  by (simp add: predictWindows_map)

lemma predictWindows_nth:
  assumes "w \<le> i" "i < length tv"
  shows "predictWindows f tv w ! (i - w) = f (take w (drop (i - w) tv))"
proof -
  have "predictWindows f tv w ! (i - w) = f (slice tv (int (w + (i - w)) - int w) (int (w + (i - w))))"
    unfolding predictWindows_map using assms by (subst nth_map) simp_all
  also have "w + (i - w) = i" using assms by simp
  finally show ?thesis using assms by (simp add: slice_preceding)
qed

lemma trainAndEvaluate_mape:
  "snd (trainAndEvaluate fit k tr te w u ep) =
     computeMape (drop w (map val te))
       (predictWindows (forward (fst (trainAndEvaluate fit k tr te w u ep))) (map val te) w)"
  by (simp add: trainAndEvaluate_def Let_def slice_from_nonneg)

subsection \<open>The future loop\<close>

lemma futureForecast_0: "futureForecast f vals w 0 = (slice_from vals (- int w), [])"
  by (simp add: futureForecast_def)

lemma futureForecast_neg: "n \<le> 0 \<Longrightarrow> futureForecast f vals w n = (slice_from vals (- int w), [])"
  by (simp add: futureForecast_def)

lemma futureForecast_Suc:
  "0 \<le> k \<Longrightarrow> futureForecast f vals w (k + 1) = futureStep f (futureForecast f vals w k)"
  by (simp add: futureForecast_def nat_add_distrib)

lemma futureStep_fields:
  "fst (futureStep f st) = tl (fst st) @ [f (fst st)]"
  "snd (futureStep f st) = snd st @ [f (fst st)]"
  by (simp_all add: futureStep_def Let_def slice_from_1)

lemma futureForecast_nat_lengths:
  "length (snd (futureForecast f vals w (int n))) = n \<and>
   (slice_from vals (- int w) \<noteq> [] \<longrightarrow>
      length (fst (futureForecast f vals w (int n))) = length (slice_from vals (- int w)))"
proof (induction n)
  case 0
  show ?case by (simp add: futureForecast_0)
next
  case (Suc n)
  have "futureForecast f vals w (int (Suc n)) = futureStep f (futureForecast f vals w (int n))"
    using futureForecast_Suc [of "int n" f vals w] by (simp add: add.commute)
  with Suc show ?case by (auto simp: futureStep_fields simp del: of_nat_Suc)
qed

lemma futureForecast_prefix:
  "k \<le> n \<Longrightarrow>
   take k (snd (futureForecast f vals w (int n))) = snd (futureForecast f vals w (int k))"
proof (induction n)
  case 0
  then show ?case by (simp add: futureForecast_0)
next
  case (Suc n)
  have step: "futureForecast f vals w (int (Suc n)) = futureStep f (futureForecast f vals w (int n))"
    using futureForecast_Suc [of "int n" f vals w] by (simp add: add.commute)
  show ?case
  proof (cases "k = Suc n")
    case True
    then show ?thesis using futureForecast_nat_lengths [of f vals w "Suc n"]
      by (simp del: of_nat_Suc)
  next
    case False
    with Suc.prems have "k \<le> n" by simp
    with Suc.IH show ?thesis
      using futureForecast_nat_lengths [of f vals w n]
      by (simp add: step futureStep_fields del: of_nat_Suc)
  qed
qed

lemma futureForecast_nth:
  assumes "k < n"
  shows "snd (futureForecast f vals w (int n)) ! k = f (fst (futureForecast f vals w (int k)))"
proof -
  have step: "futureForecast f vals w (int (Suc k)) = futureStep f (futureForecast f vals w (int k))"
    using futureForecast_Suc [of "int k" f vals w] by (simp add: add.commute)
  have "snd (futureForecast f vals w (int n)) ! k =
        take (Suc k) (snd (futureForecast f vals w (int n))) ! k" by simp
  also have "\<dots> = snd (futureForecast f vals w (int (Suc k))) ! k"
    using assms by (subst futureForecast_prefix) (simp_all del: of_nat_Suc)
  also have "\<dots> = f (fst (futureForecast f vals w (int k)))"
    using futureForecast_nat_lengths [of f vals w k]
    by (simp add: step futureStep_fields nth_append del: of_nat_Suc)
  finally show ?thesis .
qed

subsection \<open>\<open>handleTrain\<close>\<close>

lemma splitIndex_div: "splitIndex s = (4 * int (length (data s))) div 5"
proof -
  have "real (length (data s)) * (8 / 10) = real_of_int (4 * int (length (data s))) / real_of_int 5"
    by simp
  then show ?thesis unfolding splitIndex_def by (simp only: floor_divide_of_int_eq)
qed

lemma handleTrain_short:
  "length (data s) < 20 \<Longrightarrow> handleTrain fit clock parse tz s = s\<lparr>error := Some msgTooShort\<rparr>"
  by (simp add: handleTrain_def)

lemma handleTrain_exhausted:
  "\<not> length (data s) < 20 \<Longrightarrow> bestModel (search fit clock s) = None \<Longrightarrow>
   handleTrain fit clock parse tz s =
     s\<lparr>error := Some msgNoModel, isTraining := False,
       progress := ui_progress (search fit clock s), timeLeft := ui_timeLeft (search fit clock s),
       testPredictions := [], testMape := None, futurePredictions := [], futureDates := []\<rparr>"
  by (simp add: handleTrain_def Let_def)

lemma handleTrain_success:
  assumes "\<not> length (data s) < 20" "bestModel (search fit clock s) = Some best"
  shows "testPredictions (handleTrain fit clock parse tz s) =
           predictWindows (forward best) (map val (testData s)) (bestWindowSize (search fit clock s))"
    and "testMape (handleTrain fit clock parse tz s) =
           Some (computeMape (drop (bestWindowSize (search fit clock s)) (map val (testData s)))
                   (predictWindows (forward best) (map val (testData s))
                      (bestWindowSize (search fit clock s))))"
    and "futurePredictions (handleTrain fit clock parse tz s) =
           snd (futureForecast (forward best) (map val (data s))
                  (bestWindowSize (search fit clock s)) (futurePeriods s))"
    and "futureDates (handleTrain fit clock parse tz s) =
           generateFutureDates parse tz (date (last (data s))) (futurePeriods s)"
    and "error (handleTrain fit clock parse tz s) = None"
    and "isTraining (handleTrain fit clock parse tz s) = False"
proof -
  have "data s \<noteq> []" using assms(1) by auto
  then have "data s ! (length (data s) - 1) = last (data s)" by (simp add: last_conv_nth)
  then show "futureDates (handleTrain fit clock parse tz s) =
           generateFutureDates parse tz (date (last (data s))) (futurePeriods s)"
    using assms by (simp add: handleTrain_def Let_def)
qed (use assms in \<open>simp_all add: handleTrain_def Let_def slice_from_nonneg\<close>)

lemma set_combos: "set combos = {(3, 32), (3, 64), (5, 32), (5, 64)}"
  by (simp add: combos_def windowSizes_def lstmUnitsArray_def)

lemma search_window:
  assumes "bestModel (search fit clock s) = Some best"
  shows "bestWindowSize (search fit clock s) = 3 \<or> bestWindowSize (search fit clock s) = 5"
proof -
  from runSweep_winner [OF assms [unfolded search_def]]
  obtain k where "k < length combos"
    "bestWindowSize (runSweep fit clock (trainData s) (testData s) combos) = fst (combos ! k)"
    by blast
  moreover from this have "combos ! k \<in> set combos" by simp
  ultimately show ?thesis unfolding search_def
    by (auto simp: set_combos)
qed

lemma example_lengths:
  "length (data (exampleState twentyPoints)) = 20"
  "length (data (exampleState endingInZero)) = 20"
  "futurePeriods (exampleState vs) = 2"
  "testPredictions (exampleState vs) = [7]"
  by (simp_all add: exampleState_def examplePoints_def twentyPoints_def endingInZero_def)

lemma example_search:
  "map_option model_id (bestModel (search exampleFit exampleClock (exampleState twentyPoints)))
     = Some 1"
  by code_simp

lemma example_window:
  "bestWindowSize (search exampleFit exampleClock (exampleState twentyPoints)) = 3"
  by code_simp

lemma example_test_length: "length (testData (exampleState twentyPoints)) = 4"
  by code_simp

text \<open>
  Claim C5. On a successful run the future predictions are computed autoregressively: the
  seed window is the last \<open>windowSize\<close> values of the whole series; every step predicts one
  value from the current window, appends it and drops the oldest value, so the window of
  step \<open>k + 1\<close> ends with the prediction of step \<open>k\<close>; exactly \<open>futurePeriods\<close> predictions
  are produced, the \<open>k\<close>-th one from the window of step \<open>k\<close>.
\<close>

theorem handleTrain_future_autoregressive:
  assumes "20 \<le> length (data s)"
    and "bestModel (search fit clock s) = Some best"
    and "0 \<le> futurePeriods s"
  shows "futurePredictions (handleTrain fit clock parse tz s) =
           snd (futureForecast (forward best) (map val (data s))
                  (bestWindowSize (search fit clock s)) (futurePeriods s)) \<and>
         length (futurePredictions (handleTrain fit clock parse tz s)) = nat (futurePeriods s) \<and>
         futureForecast (forward best) (map val (data s)) (bestWindowSize (search fit clock s)) 0 =
           (drop (length (data s) - bestWindowSize (search fit clock s)) (map val (data s)), []) \<and>
         (\<forall>k\<ge>0.
            length (fst (futureForecast (forward best) (map val (data s))
                           (bestWindowSize (search fit clock s)) k)) =
              bestWindowSize (search fit clock s) \<and>
            futureForecast (forward best) (map val (data s))
                (bestWindowSize (search fit clock s)) (k + 1) =
              (tl (fst (futureForecast (forward best) (map val (data s))
                          (bestWindowSize (search fit clock s)) k)) @
                 [forward best (fst (futureForecast (forward best) (map val (data s))
                                        (bestWindowSize (search fit clock s)) k))],
               snd (futureForecast (forward best) (map val (data s))
                      (bestWindowSize (search fit clock s)) k) @
                 [forward best (fst (futureForecast (forward best) (map val (data s))
                                        (bestWindowSize (search fit clock s)) k))])) \<and>
         (\<forall>k. 0 \<le> k \<and> k < futurePeriods s \<longrightarrow>
            futurePredictions (handleTrain fit clock parse tz s) ! nat k =
              forward best (fst (futureForecast (forward best) (map val (data s))
                                   (bestWindowSize (search fit clock s)) k)))"
proof -
  define W where "W = bestWindowSize (search fit clock s)"
  define vals where "vals = map val (data s)"
  define f where "f = forward best"
  have W: "0 < W" "W \<le> length vals"
    using search_window [OF assms(2)] assms(1) by (auto simp: W_def vals_def)
  have seed: "slice_from vals (- int W) = drop (length vals - W) vals"
    using W by (rule slice_from_last)
  have seed_len: "length (slice_from vals (- int W)) = W" using W by (simp add: seed)
  then have seed_ne: "slice_from vals (- int W) \<noteq> []" using W by auto
  have fp: "futurePredictions (handleTrain fit clock parse tz s) =
              snd (futureForecast f vals W (futurePeriods s))"
    using handleTrain_success(3) [OF _ assms(2)] assms(1) by (simp add: W_def vals_def f_def)
  have len: "length (snd (futureForecast f vals W (futurePeriods s))) = nat (futurePeriods s)"
    using futureForecast_nat_lengths [of f vals W "nat (futurePeriods s)"] assms(3) by simp
  have win: "length (fst (futureForecast f vals W k)) = W" if "0 \<le> k" for k
    using futureForecast_nat_lengths [of f vals W "nat k"] that seed_ne seed_len by simp
  have step: "futureForecast f vals W (k + 1) =
      (tl (fst (futureForecast f vals W k)) @ [f (fst (futureForecast f vals W k))],
       snd (futureForecast f vals W k) @ [f (fst (futureForecast f vals W k))])"
    if "0 \<le> k" for k
    using futureForecast_Suc [OF that, of f vals W]
    by (simp add: prod_eq_iff futureStep_fields)
  have nth: "snd (futureForecast f vals W (futurePeriods s)) ! nat k =
               f (fst (futureForecast f vals W k))"
    if "0 \<le> k \<and> k < futurePeriods s" for k
    using futureForecast_nth [of "nat k" "nat (futurePeriods s)" f vals W] that by simp
  have zero: "futureForecast f vals W 0 = (drop (length vals - W) vals, [])"
    by (simp add: futureForecast_0 seed)
  show ?thesis
    unfolding W_def [symmetric] vals_def [symmetric] f_def [symmetric] fp
    using len win step nth zero
    by (simp add: vals_def)
qed

lemma example_future:
  "futurePredictions (handleTrain exampleFit exampleClock parseISODate 0 (exampleState twentyPoints))
     = [20, 20]"
  by code_simp

theorem handleTrain_future_autoregressive_witness:
  "20 \<le> length (data (exampleState twentyPoints)) \<and>
   map_option model_id (bestModel (search exampleFit exampleClock (exampleState twentyPoints)))
     = Some 1 \<and>
   0 \<le> futurePeriods (exampleState twentyPoints) \<and>
   length (futurePredictions
     (handleTrain exampleFit exampleClock parseISODate 0 (exampleState twentyPoints))) = 2 \<and>
   futurePredictions
     (handleTrain exampleFit exampleClock parseISODate 0 (exampleState twentyPoints)) = [20, 20]"
proof -
  obtain best where best:
    "bestModel (search exampleFit exampleClock (exampleState twentyPoints)) = Some best"
    using example_search by auto
  have long: "20 \<le> length (data (exampleState twentyPoints))" by (simp add: example_lengths)
  have fp: "0 \<le> futurePeriods (exampleState twentyPoints)" by (simp add: example_lengths)
  from handleTrain_future_autoregressive [OF long best fp, of parseISODate 0]
  have "length (futurePredictions
     (handleTrain exampleFit exampleClock parseISODate 0 (exampleState twentyPoints))) =
       nat (futurePeriods (exampleState twentyPoints))"
    by blast
  then show ?thesis
    using long fp example_search example_future by (simp add: example_lengths)
qed

text \<open>
  Claim C6. On a successful run with winning window size \<open>W\<close> below the length \<open>T\<close> of the
  test split (the points of the series from the split index on), there is one test
  prediction for every index \<open>i\<close> from \<open>W\<close> to \<open>T - 1\<close>, computed from the \<open>W\<close> actual test
  values before \<open>i\<close>, and the test error is \<open>computeMape\<close> of \<open>testValues[W:]\<close> against these
  predictions.
\<close>

theorem handleTrain_test_predictions:
  assumes "20 \<le> length (data s)"
    and "bestModel (search fit clock s) = Some best"
    and "bestWindowSize (search fit clock s) < length (testData s)"
  shows "testData s = drop (nat (splitIndex s)) (data s) \<and>
         length (testPredictions (handleTrain fit clock parse tz s)) =
           length (testData s) - bestWindowSize (search fit clock s) \<and>
         (\<forall>i. bestWindowSize (search fit clock s) \<le> i \<and> i < length (testData s) \<longrightarrow>
            testPredictions (handleTrain fit clock parse tz s)
              ! (i - bestWindowSize (search fit clock s)) =
            forward best
              (take (bestWindowSize (search fit clock s))
                 (drop (i - bestWindowSize (search fit clock s)) (map val (testData s)))) \<and>
            length (take (bestWindowSize (search fit clock s))
                 (drop (i - bestWindowSize (search fit clock s)) (map val (testData s)))) =
              bestWindowSize (search fit clock s)) \<and>
         testMape (handleTrain fit clock parse tz s) =
           Some (computeMape
                   (drop (bestWindowSize (search fit clock s)) (map val (testData s)))
                   (testPredictions (handleTrain fit clock parse tz s)))"
proof -
  define W where "W = bestWindowSize (search fit clock s)"
  define tv where "tv = map val (testData s)"
  have not_short: "\<not> length (data s) < 20" using assms(1) by simp
  have tp: "testPredictions (handleTrain fit clock parse tz s) = predictWindows (forward best) tv W"
    using handleTrain_success(1) [OF not_short assms(2)] by (simp add: W_def tv_def)
  have tm: "testMape (handleTrain fit clock parse tz s) =
              Some (computeMape (drop W tv) (predictWindows (forward best) tv W))"
    using handleTrain_success(2) [OF not_short assms(2)] by (simp add: W_def tv_def)
  have split: "0 \<le> splitIndex s" by (simp add: splitIndex_def)
  have td: "testData s = drop (nat (splitIndex s)) (data s)"
    using split by (simp add: testData_def slice_from_def js_index_def min_def)
  have nth: "predictWindows (forward best) tv W ! (i - W) = forward best (take W (drop (i - W) tv))
             \<and> length (take W (drop (i - W) tv)) = W"
    if "W \<le> i \<and> i < length tv" for i
    using predictWindows_nth [of W i tv "forward best"] that by auto
  have len: "length tv = length (testData s)" by (simp add: tv_def)
  show ?thesis
    unfolding W_def [symmetric] tv_def [symmetric] tp tm len [symmetric]
    using nth td by (simp add: predictWindows_length tv_def)
qed

lemma example_test_predictions:
  "testPredictions (handleTrain exampleFit exampleClock parseISODate 0 (exampleState twentyPoints))
     = [19]"
  by code_simp

theorem handleTrain_test_predictions_witness:
  "20 \<le> length (data (exampleState twentyPoints)) \<and>
   map_option model_id (bestModel (search exampleFit exampleClock (exampleState twentyPoints)))
     = Some 1 \<and>
   bestWindowSize (search exampleFit exampleClock (exampleState twentyPoints))
     < length (testData (exampleState twentyPoints)) \<and>
   length (testPredictions
     (handleTrain exampleFit exampleClock parseISODate 0 (exampleState twentyPoints))) = 1 \<and>
   testPredictions
     (handleTrain exampleFit exampleClock parseISODate 0 (exampleState twentyPoints)) = [19]"
proof -
  obtain best where best:
    "bestModel (search exampleFit exampleClock (exampleState twentyPoints)) = Some best"
    using example_search by auto
  have long: "20 \<le> length (data (exampleState twentyPoints))" by (simp add: example_lengths)
  have w: "bestWindowSize (search exampleFit exampleClock (exampleState twentyPoints))
             < length (testData (exampleState twentyPoints))"
    by (simp add: example_window example_test_length)
  from handleTrain_test_predictions [OF long best w, of parseISODate 0]
  have "length (testPredictions
     (handleTrain exampleFit exampleClock parseISODate 0 (exampleState twentyPoints))) =
       length (testData (exampleState twentyPoints))
         - bestWindowSize (search exampleFit exampleClock (exampleState twentyPoints))"
    by blast
  then show ?thesis
    using long w example_search example_test_predictions
    by (simp add: example_window example_test_length)
qed

lemma example_exhausted:
  "bestModel (search exampleFit exampleClock (exampleState endingInZero)) = None"
  by code_simp

text \<open>
  Claim C9, as the code has it. A run on fewer than 20 points aborts at once: the state is
  unchanged but for the message, so the results of an earlier run stay on display. A run
  whose sweep adopts no model also ends with a message and without a retry, but by then
  \<open>handleTrain\<close> has cleared the results: the test predictions, the test error, the future
  predictions and the future dates are empty.
\<close>

theorem handleTrain_failure:
  "(length (data s) < 20 \<longrightarrow>
      handleTrain fit clock parse tz s = s\<lparr>error := Some msgTooShort\<rparr> \<and>
      testPredictions (handleTrain fit clock parse tz s) = testPredictions s \<and>
      testMape (handleTrain fit clock parse tz s) = testMape s \<and>
      futurePredictions (handleTrain fit clock parse tz s) = futurePredictions s \<and>
      futureDates (handleTrain fit clock parse tz s) = futureDates s) \<and>
   (20 \<le> length (data s) \<and> bestModel (search fit clock s) = None \<longrightarrow>
      error (handleTrain fit clock parse tz s) = Some msgNoModel \<and>
      isTraining (handleTrain fit clock parse tz s) = False \<and>
      testPredictions (handleTrain fit clock parse tz s) = [] \<and>
      testMape (handleTrain fit clock parse tz s) = None \<and>
      futurePredictions (handleTrain fit clock parse tz s) = [] \<and>
      futureDates (handleTrain fit clock parse tz s) = [] \<and>
      data (handleTrain fit clock parse tz s) = data s)"
proof (intro conjI impI)
  assume "20 \<le> length (data s) \<and> bestModel (search fit clock s) = None"
  then have *: "\<not> length (data s) < 20" "bestModel (search fit clock s) = None" by auto
  note ex = handleTrain_exhausted [OF *, of parse tz]
  show "error (handleTrain fit clock parse tz s) = Some msgNoModel"
    "isTraining (handleTrain fit clock parse tz s) = False"
    "testPredictions (handleTrain fit clock parse tz s) = []"
    "testMape (handleTrain fit clock parse tz s) = None"
    "futurePredictions (handleTrain fit clock parse tz s) = []"
    "futureDates (handleTrain fit clock parse tz s) = []"
    "data (handleTrain fit clock parse tz s) = data s"
    by (simp_all add: ex)
qed (simp_all add: handleTrain_short)

theorem handleTrain_failure_witness:
  "length (data (exampleState [1, 2, 3])) < 20 \<and>
   testPredictions (handleTrain exampleFit exampleClock parseISODate 0 (exampleState [1, 2, 3]))
     = [7] \<and>
   error (handleTrain exampleFit exampleClock parseISODate 0 (exampleState [1, 2, 3]))
     = Some msgTooShort \<and>
   20 \<le> length (data (exampleState endingInZero)) \<and>
   bestModel (search exampleFit exampleClock (exampleState endingInZero)) = None \<and>
   error (handleTrain exampleFit exampleClock parseISODate 0 (exampleState endingInZero))
     = Some msgNoModel \<and>
   testPredictions (handleTrain exampleFit exampleClock parseISODate 0 (exampleState endingInZero))
     = []"
proof -
  have short: "length (data (exampleState [1, 2, 3])) < 20"
    by (simp add: exampleState_def examplePoints_def)
  have long: "20 \<le> length (data (exampleState endingInZero))" by (simp add: example_lengths)
  from handleTrain_failure [of "exampleState [1, 2, 3]" exampleFit exampleClock parseISODate 0] short
  have a: "testPredictions
        (handleTrain exampleFit exampleClock parseISODate 0 (exampleState [1, 2, 3])) =
          testPredictions (exampleState [1, 2, 3])"
    "handleTrain exampleFit exampleClock parseISODate 0 (exampleState [1, 2, 3]) =
       (exampleState [1, 2, 3])\<lparr>error := Some msgTooShort\<rparr>"
    by blast+
  from handleTrain_failure [of "exampleState endingInZero" exampleFit exampleClock parseISODate 0]
    long example_exhausted
  have b: "error (handleTrain exampleFit exampleClock parseISODate 0 (exampleState endingInZero))
            = Some msgNoModel"
    "testPredictions (handleTrain exampleFit exampleClock parseISODate 0 (exampleState endingInZero))
            = []"
    by blast+
  show ?thesis
    using short long example_exhausted a b by (simp add: example_lengths)
qed

text \<open>
  The claim as stated fails on search exhaustion: the series 1, ..., 19, 0 has twenty
  points, its test split is 17, 18, 19, 0, and no window size gives a defined test error
  (the only actual value to compare with is 0). The run ends with the message, and the test
  predictions \<open>[7]\<close> that were on display are gone.
\<close>

theorem handleTrain_exhaustion_counterexample:
  "testPredictions (exampleState endingInZero) = [7] \<and>
   error (handleTrain exampleFit exampleClock parseISODate 0 (exampleState endingInZero))
     = Some msgNoModel \<and>
   testPredictions (handleTrain exampleFit exampleClock parseISODate 0 (exampleState endingInZero))
     = [] \<and>
   testMape (handleTrain exampleFit exampleClock parseISODate 0 (exampleState endingInZero))
     = None \<and>
   futurePredictions
     (handleTrain exampleFit exampleClock parseISODate 0 (exampleState endingInZero)) = [] \<and>
   futureDates (handleTrain exampleFit exampleClock parseISODate 0 (exampleState endingInZero))
     = []"
  using handleTrain_exhausted [of "exampleState endingInZero" exampleFit exampleClock parseISODate 0]
    example_exhausted
  by (simp add: example_lengths)

lemma predict_trained:
  assumes "model this = Some m" "inputWindow m = 3" "3 \<le> length dat"
  shows "predict this dat periods =
           Inr (snd (futureForecast (forward m) (map val dat) 3 periods))"
proof -
  have "slice_from (map val dat) (- int 3) = drop (length (map val dat) - 3) (map val dat)"
    using assms(3) by (intro slice_from_last) simp_all
  then have "length (slice_from (map val dat) (- 3)) = 3" using assms(3) by simp
  then show ?thesis using assms(1,2) by (simp add: predict_def Let_def)
qed

text \<open>
  Claim C10. \<open>TimeSeriesModel.predict\<close> on an object whose \<open>model\<close> is still \<open>null\<close> (as the
  constructor leaves it, before any \<open>train\<close>) returns the empty list for every series and
  every \<open>futurePeriods\<close>: it neither throws nor predicts.
\<close>

theorem predict_untrained:
  "predict (this\<lparr>model := None\<rparr>) dat periods = Inr [] \<and>
   predict new_TimeSeriesModel dat periods = Inr []"
  by (simp add: predict_def new_TimeSeriesModel_def)

theorem predict_untrained_witness:
  "predict new_TimeSeriesModel (examplePoints [1, 2, 3, 4]) 5 = Inr [] \<and>
   predict (train exampleFit new_TimeSeriesModel (examplePoints [1, 2, 3, 4]) 10)
     (examplePoints [1, 2, 3, 4]) 2 = Inr [4, 4]"
proof -
  have "predict (train exampleFit new_TimeSeriesModel (examplePoints [1, 2, 3, 4]) 10)
     (examplePoints [1, 2, 3, 4]) 2 = Inr [4, 4]"
    by code_simp
  then show ?thesis using predict_untrained [of new_TimeSeriesModel "examplePoints [1, 2, 3, 4]" 5] by simp
qed

end
